theory Spec2Isabelle
  imports Main "HOL-Library.Sublist"
begin

section \<open>Course registration: validation rules and the coordinator\<close>

text \<open>
  A shallow embedding of \<^verbatim>\<open>registration_refactor.py\<close>, part B (the rule classes and
  \<^verbatim>\<open>RegistrationService\<close>) and the request built by \<^verbatim>\<open>demo_after_refactor\<close>.

  Python values are modelled as follows: \<^verbatim>\<open>int\<close> is \<^typ>\<open>int\<close> (unbounded),
  \<^verbatim>\<open>str\<close> is \<^typ>\<open>string\<close>, \<^verbatim>\<open>List[str]\<close> is \<^typ>\<open>string list\<close>, a
  \<^verbatim>\<open>Dict\<close> is an association list read with \<^const>\<open>map_of\<close> (the code only ever calls
  \<^verbatim>\<open>.get\<close> on a dictionary and tests it for emptiness), the local \<^verbatim>\<open>set\<close> of
  \<^verbatim>\<open>JadwalBentrokRule.validate\<close> is a \<^typ>\<open>string set\<close>, and the result
  \<^verbatim>\<open>Tuple[bool, str]\<close> is a pair. A raised exception is the left summand of a sum.
\<close>

subsection \<open>Data model\<close>

record StudentRegistration =
  student_id :: string
  name :: string
  current_sks :: int
  requested_sks :: int
  completed_courses :: "string list"
  requested_courses :: "string list"
  schedule :: "string list"

type_synonym outcome = "bool \<times> string"

text \<open>
  The only \<^verbatim>\<open>raise\<close> of the source is \<^verbatim>\<open>NotImplementedError\<close> in the abstract
  method; \<open>Raised\<close> stands for any other exception that a rule class written outside
  this file may raise.
\<close>

datatype exn = NotImplementedError | Raised string

subsection \<open>Formatting an integer inside an f-string\<close>

text \<open>Python's \<^verbatim>\<open>str(int)\<close>: decimal digits, no leading zeros, a minus sign when negative.\<close>

definition digit_char :: "nat \<Rightarrow> char" where
  "digit_char d = ''0123456789'' ! d"

function str_nat :: "nat \<Rightarrow> string" where
  "str_nat n = (if n < 10 then [digit_char n] else str_nat (n div 10) @ [digit_char (n mod 10)])"
  by pat_completeness auto
termination
  by (relation "measure (\<lambda>n. n)") auto

declare str_nat.simps [simp del]

definition str_int :: "int \<Rightarrow> string" where
  "str_int i = (if i < 0 then CHR ''-'' # str_nat (nat (- i)) else str_nat (nat i))"

subsection \<open>The rule classes\<close>

text \<open>
  \<^verbatim>\<open>IValidationRule\<close> is an abstract class with an open set of subclasses. The three
  subclasses of the source are constructors that carry the attributes set by their
  \<^verbatim>\<open>__init__\<close>; \<open>OtherRule\<close> is any further subclass: its class name, its own
  attributes and its \<^verbatim>\<open>validate\<close> method, which may change those attributes, may
  change the request object it is handed, and may raise.
\<close>

datatype 'a IValidationRule =
    SksLimitRule (max_sks: int)
  | PrerequisiteRule (prereq_map: "(string \<times> string list) list")
  | JadwalBentrokRule (existing_schedule: "string list") (course_slot_map: "(string \<times> string) list")
  | OtherRule (class_name: string) (attrs: 'a)
      (validate_method: "'a \<Rightarrow> StudentRegistration \<Rightarrow> (exn + outcome) \<times> 'a \<times> StudentRegistration")

text \<open>The body of the abstract method (line 55).\<close>

definition IValidationRule_validate :: "StudentRegistration \<Rightarrow> exn + outcome" where
  "IValidationRule_validate reg = Inl NotImplementedError"

text \<open>
  The constructors (lines 60-61, 71-76, 89-98). A default argument is \<open>None\<close>.
  \<^verbatim>\<open>x or d\<close> yields \<open>d\<close> when \<open>x\<close> is \<^verbatim>\<open>None\<close> or empty. None of them has a
  statement that raises.
\<close>

definition SksLimitRule_init :: "int option \<Rightarrow> exn + 'a IValidationRule" where
  "SksLimitRule_init max_sks_arg =
     Inr (SksLimitRule (case max_sks_arg of None \<Rightarrow> 24 | Some m \<Rightarrow> m))"

definition PrerequisiteRule_init :: "(string \<times> string list) list \<Rightarrow> exn + 'a IValidationRule" where
  "PrerequisiteRule_init prereq_map_arg = Inr (PrerequisiteRule prereq_map_arg)"

definition default_course_slot_map :: "(string \<times> string) list" where
  "default_course_slot_map =
     [(''CS101'', ''Mon-09''), (''CS102'', ''Tue-11''), (''CS201'', ''Mon-09''), (''MA101'', ''Wed-10'')]"

definition JadwalBentrokRule_init ::
  "string list option \<Rightarrow> (string \<times> string) list option \<Rightarrow> exn + 'a IValidationRule" where
  "JadwalBentrokRule_init existing_schedule_arg course_slot_map_arg =
     Inr (JadwalBentrokRule
       (case existing_schedule_arg of None \<Rightarrow> [] | Some xs \<Rightarrow> (if xs = [] then [] else xs))
       (case course_slot_map_arg of
          None \<Rightarrow> default_course_slot_map
        | Some m \<Rightarrow> (if m = [] then default_course_slot_map else m)))"

subsubsection \<open>\<^verbatim>\<open>SksLimitRule.validate\<close> (lines 63-66)\<close>

definition sks_message :: "int \<Rightarrow> string" where
  "sks_message cap = ''Gagal: Melebihi batas SKS (max '' @ str_int cap @ '').''"

definition SksLimitRule_validate :: "int \<Rightarrow> StudentRegistration \<Rightarrow> outcome" where
  "SksLimitRule_validate self_max_sks reg =
     (if current_sks reg + requested_sks reg > self_max_sks
      then (False, sks_message self_max_sks)
      else (True, ''''))"

subsubsection \<open>\<^verbatim>\<open>PrerequisiteRule.validate\<close> (lines 78-84)\<close>

definition prereq_message :: "string \<Rightarrow> string \<Rightarrow> string" where
  "prereq_message req course =
     ''Gagal: Prasyarat '' @ req @ '' belum terpenuhi untuk '' @ course @ ''.''"

text \<open>\<^verbatim>\<open>self.prereq_map.get(course, [])\<close>\<close>

definition required_of :: "(string \<times> string list) list \<Rightarrow> string \<Rightarrow> string list" where
  "required_of pm course = (case map_of pm course of None \<Rightarrow> [] | Some reqs \<Rightarrow> reqs)"

text \<open>The inner loop; \<open>Some\<close> is the \<^verbatim>\<open>return\<close> inside it, \<open>None\<close> is falling out of it.\<close>

fun prereq_inner :: "string list \<Rightarrow> string \<Rightarrow> string list \<Rightarrow> outcome option" where
  "prereq_inner completed course [] = None"
| "prereq_inner completed course (req # required) =
     (if req \<notin> set completed then Some (False, prereq_message req course)
      else prereq_inner completed course required)"

fun prereq_outer :: "(string \<times> string list) list \<Rightarrow> string list \<Rightarrow> string list \<Rightarrow> outcome" where
  "prereq_outer pm completed [] = (True, '''')"
| "prereq_outer pm completed (course # courses) =
     (case prereq_inner completed course (required_of pm course) of
        Some res \<Rightarrow> res
      | None \<Rightarrow> prereq_outer pm completed courses)"

definition PrerequisiteRule_validate ::
  "(string \<times> string list) list \<Rightarrow> StudentRegistration \<Rightarrow> outcome" where
  "PrerequisiteRule_validate self_prereq_map reg =
     prereq_outer self_prereq_map (completed_courses reg) (requested_courses reg)"

subsubsection \<open>\<^verbatim>\<open>JadwalBentrokRule.validate\<close> (lines 100-115)\<close>

definition jadwal_message :: "string \<Rightarrow> string \<Rightarrow> string" where
  "jadwal_message course slot =
     ''Gagal: Jadwal bentrok untuk '' @ course @ '' pada slot '' @ slot @ ''.''"

text \<open>
  The loop over \<^verbatim>\<open>reg.requested_courses\<close>, with the local variable \<^verbatim>\<open>occupied\<close>
  as its state. \<^verbatim>\<open>occupied\<close> is a set object built by \<^verbatim>\<open>set(...)\<close> from a list
  built by \<^verbatim>\<open>+\<close>, so \<^verbatim>\<open>occupied.add\<close> writes to no object of the rule or request.
\<close>

fun jadwal_loop :: "(string \<times> string) list \<Rightarrow> string set \<Rightarrow> string list \<Rightarrow> outcome" where
  "jadwal_loop csm occupied [] = (True, '''')"
| "jadwal_loop csm occupied (course # courses) =
     (case map_of csm course of
        None \<Rightarrow> jadwal_loop csm occupied courses
      | Some slot \<Rightarrow>
          (if slot \<in> occupied then (False, jadwal_message course slot)
           else jadwal_loop csm (insert slot occupied) courses))"

definition JadwalBentrokRule_validate ::
  "string list \<Rightarrow> (string \<times> string) list \<Rightarrow> StudentRegistration \<Rightarrow> outcome" where
  "JadwalBentrokRule_validate self_existing_schedule self_course_slot_map reg =
     jadwal_loop self_course_slot_map
       (set (self_existing_schedule @ schedule reg)) (requested_courses reg)"

subsubsection \<open>Calling \<^verbatim>\<open>rule.validate(reg)\<close>\<close>

text \<open>
  A method call returns its value or raises, and leaves the rule object and the request
  object in some state. The three methods above contain no assignment to an attribute of
  \<^verbatim>\<open>self\<close> or \<^verbatim>\<open>reg\<close> and call no mutating method on an object reachable from them
  (for \<^verbatim>\<open>occupied.add\<close>, the one mutating call there is, see the store model below).
\<close>

fun validate ::
  "'a IValidationRule \<Rightarrow> StudentRegistration \<Rightarrow>
     (exn + outcome) \<times> 'a IValidationRule \<times> StudentRegistration" where
  "validate (SksLimitRule m) reg = (Inr (SksLimitRule_validate m reg), SksLimitRule m, reg)"
| "validate (PrerequisiteRule pm) reg =
     (Inr (PrerequisiteRule_validate pm reg), PrerequisiteRule pm, reg)"
| "validate (JadwalBentrokRule es csm) reg =
     (Inr (JadwalBentrokRule_validate es csm reg), JadwalBentrokRule es csm, reg)"
| "validate (OtherRule cn st f) reg =
     (case f st reg of (res, st', reg') \<Rightarrow> (res, OtherRule cn st' f, reg'))"

text \<open>\<^verbatim>\<open>rule.__class__.__name__\<close>\<close>

fun rule_name :: "'a IValidationRule \<Rightarrow> string" where
  "rule_name (SksLimitRule m) = ''SksLimitRule''"
| "rule_name (PrerequisiteRule pm) = ''PrerequisiteRule''"
| "rule_name (JadwalBentrokRule es csm) = ''JadwalBentrokRule''"
| "rule_name (OtherRule cn st f) = cn"

subsection \<open>\<^verbatim>\<open>RegistrationService\<close> (lines 119-130)\<close>

record 'a RegistrationService =
  rules :: "'a IValidationRule list"

definition RegistrationService_init :: "'a IValidationRule list \<Rightarrow> 'a RegistrationService" where
  "RegistrationService_init rules_arg = \<lparr>rules = rules_arg\<rparr>"

text \<open>The line printed after each call of \<^verbatim>\<open>validate\<close> (line 127).\<close>

definition status_line :: "string \<Rightarrow> bool \<Rightarrow> string \<Rightarrow> string" where
  "status_line rname ok msg =
     ''['' @ rname @ ''] -> '' @ (if ok then ''OK'' else ''FAIL'')
       @ (if msg \<noteq> [] then '' - '' @ msg else '''')"

text \<open>
  The loop of \<^verbatim>\<open>register\<close>. It returns the value returned (or the exception that
  escaped), the rule objects and the request object as the calls left them, and the
  lines printed.
\<close>

fun register_loop ::
  "'a IValidationRule list \<Rightarrow> StudentRegistration \<Rightarrow>
     (exn + outcome) \<times> 'a IValidationRule list \<times> StudentRegistration \<times> string list" where
  "register_loop [] reg = (Inr (True, ''Registrasi berhasil.''), [], reg, [])"
| "register_loop (rule # rest) reg =
     (case validate rule reg of
        (Inl e, rule', reg') \<Rightarrow> (Inl e, rule' # rest, reg', [])
      | (Inr (ok, msg), rule', reg') \<Rightarrow>
          (if \<not> ok then (Inr (False, msg), rule' # rest, reg', [status_line (rule_name rule') ok msg])
           else (case register_loop rest reg' of
                   (res, rest', reg'', out) \<Rightarrow>
                     (res, rule' # rest', reg'', status_line (rule_name rule') ok msg # out))))"

definition register ::
  "'a RegistrationService \<Rightarrow> StudentRegistration \<Rightarrow>
     (exn + outcome) \<times> 'a RegistrationService \<times> StudentRegistration \<times> string list" where
  "register self reg =
     (case register_loop (rules self) reg of
        (res, rules', reg', out) \<Rightarrow> (res, self\<lparr>rules := rules'\<rparr>, reg', out))"

subsection \<open>The request of \<^verbatim>\<open>demo_after_refactor\<close> (lines 155-163)\<close>

definition demo_reg :: StudentRegistration where
  "demo_reg = \<lparr>student_id = ''S002'', name = ''Budi'', current_sks = 18, requested_sks = 6,
     completed_courses = [''CS101''], requested_courses = [''CS201'', ''MA101''],
     schedule = [''Wed-10'']\<rparr>"

subsection \<open>\<^verbatim>\<open>JadwalBentrokRule.validate\<close> on a store of objects\<close>

text \<open>
  The functions above work on the values of lists. In Python a list or a set is an object
  that is reached through references and can be changed in place, and
  \<^verbatim>\<open>JadwalBentrokRule.validate\<close> does change an object: \<^verbatim>\<open>occupied.add(slot)\<close>.
  Here the method is written once more with the objects in a store: the object at address
  \<open>r\<close> is the \<open>r\<close>-th element of the store, a new object is put at the end, and the
  attributes \<^verbatim>\<open>self.existing_schedule\<close>, \<^verbatim>\<open>reg.schedule\<close> and
  \<^verbatim>\<open>reg.requested_courses\<close> are addresses. \<^verbatim>\<open>+\<close> on lists and \<^verbatim>\<open>set(...)\<close> make
  new objects; the \<^verbatim>\<open>for\<close> loop reads the list object at each step by its index, as
  Python's list iterator does; \<^verbatim>\<open>occupied.add\<close> replaces the object at the address of
  \<^verbatim>\<open>occupied\<close>. An address that holds no object of the kind the statement needs ends
  the call with an exception; this is not reached when the attributes have their
  annotated types.
\<close>

datatype pyobj = PyList "string list" | PySet "string set"

type_synonym store = "pyobj list"

definition deref :: "store \<Rightarrow> nat \<Rightarrow> pyobj option" where
  "deref h r = (if r < length h then Some (h ! r) else None)"

definition alloc :: "store \<Rightarrow> pyobj \<Rightarrow> nat \<times> store" where
  "alloc h v = (length h, h @ [v])"

function jadwal_loop_store ::
  "(string \<times> string) list \<Rightarrow> nat \<Rightarrow> nat \<Rightarrow> nat \<Rightarrow> store \<Rightarrow> (exn + outcome) \<times> store" where
  "jadwal_loop_store csm occupied courses i h =
     (case deref h courses of
        Some (PyList cs) \<Rightarrow>
          (if i < length cs then
             (case map_of csm (cs ! i) of
                None \<Rightarrow> jadwal_loop_store csm occupied courses (Suc i) h
              | Some slot \<Rightarrow>
                  (case deref h occupied of
                     Some (PySet s) \<Rightarrow>
                       (if slot \<in> s then (Inr (False, jadwal_message (cs ! i) slot), h)
                        else jadwal_loop_store csm occupied courses (Suc i)
                               (h[occupied := PySet (insert slot s)]))
                   | Some (PyList xs) \<Rightarrow> (Inl (Raised ''TypeError''), h)
                   | None \<Rightarrow> (Inl (Raised ''TypeError''), h)))
           else (Inr (True, ''''), h))
      | Some (PySet s) \<Rightarrow> (Inl (Raised ''TypeError''), h)
      | None \<Rightarrow> (Inl (Raised ''TypeError''), h))"
  by pat_completeness auto
termination
proof (relation "measure (\<lambda>(csm, occupied, courses, i, h).
    case deref h courses of Some (PyList cs) \<Rightarrow> length cs - i | _ \<Rightarrow> 0)")
  show "wf (measure (\<lambda>(csm, occupied, courses, i, h).
    case deref h courses of Some (PyList cs) \<Rightarrow> length cs - i | _ \<Rightarrow> 0))" by simp
next
  fix csm :: "(string \<times> string) list" and occupied courses i :: nat and h :: store and x2 x1
  assume "deref h courses = Some x2" "x2 = PyList x1" "i < length x1"
  then show "((csm, occupied, courses, Suc i, h), (csm, occupied, courses, i, h))
    \<in> measure (\<lambda>(csm, occupied, courses, i, h).
        case deref h courses of Some (PyList cs) \<Rightarrow> length cs - i | _ \<Rightarrow> 0)"
    by simp
next
  fix csm :: "(string \<times> string) list" and occupied courses i :: nat and h :: store
    and x2 x1 x2a x2b x2c
  assume a: "deref h courses = Some x2" "x2 = PyList x1" "i < length x1"
    "deref h occupied = Some x2b" "x2b = PySet x2c"
  then have "occupied \<noteq> courses" by auto
  with a have "deref (h[occupied := PySet (insert x2a x2c)]) courses = Some (PyList x1)"
    by (auto simp: deref_def split: if_splits)
  with a show "((csm, occupied, courses, Suc i, h[occupied := PySet (insert x2a x2c)]),
      (csm, occupied, courses, i, h))
    \<in> measure (\<lambda>(csm, occupied, courses, i, h).
        case deref h courses of Some (PyList cs) \<Rightarrow> length cs - i | _ \<Rightarrow> 0)"
    by simp
qed

declare jadwal_loop_store.simps [simp del]

definition JadwalBentrokRule_validate_store ::
  "nat \<Rightarrow> (string \<times> string) list \<Rightarrow> nat \<Rightarrow> nat \<Rightarrow> store \<Rightarrow> (exn + outcome) \<times> store" where
  "JadwalBentrokRule_validate_store self_existing_schedule self_course_slot_map
       reg_schedule reg_requested_courses h =
     (case (deref h self_existing_schedule, deref h reg_schedule) of
        (Some (PyList es), Some (PyList sch)) \<Rightarrow>
          (case alloc h (PyList (es @ sch)) of
             (tmp, h1) \<Rightarrow>
               (case alloc h1 (PySet (set (es @ sch))) of
                  (occupied, h2) \<Rightarrow>
                    jadwal_loop_store self_course_slot_map occupied reg_requested_courses 0 h2))
      | _ \<Rightarrow> (Inl (Raised ''TypeError''), h))"

subsection \<open>Notions used to state the properties\<close>

text \<open>The number a string of decimal digits denotes, and the integer a signed one denotes.\<close>

definition digits_value :: "string \<Rightarrow> nat" where
  "digits_value s = foldl (\<lambda>a c. 10 * a + (of_char c - 48)) 0 s"

definition signed_value :: "string \<Rightarrow> int" where
  "signed_value s =
     (case s of
        [] \<Rightarrow> 0
      | c # cs \<Rightarrow> (if c = CHR ''-'' then - int (digits_value cs) else int (digits_value s)))"

text \<open>
  The slots of the courses of a list that have an entry in the course-to-slot dictionary,
  in the order of the courses.
\<close>

fun slots_of :: "(string \<times> string) list \<Rightarrow> string list \<Rightarrow> string list" where
  "slots_of csm [] = []"
| "slots_of csm (c # cs) =
     (case map_of csm c of None \<Rightarrow> slots_of csm cs | Some s \<Rightarrow> s # slots_of csm cs)"

text \<open>The rule classes defined in the source file.\<close>

fun source_rule :: "'a IValidationRule \<Rightarrow> bool" where
  "source_rule (OtherRule cn st f) = False"
| "source_rule rule = True"

text \<open>
  Calling \<^verbatim>\<open>validate\<close> on every rule of a list, in list order, each on the request
  object as the calls before it left it: the values returned, the rule objects and the
  request object afterwards.
\<close>

fun validate_in_order ::
  "'a IValidationRule list \<Rightarrow> StudentRegistration \<Rightarrow>
     (exn + outcome) list \<times> 'a IValidationRule list \<times> StudentRegistration" where
  "validate_in_order [] reg = ([], [], reg)"
| "validate_in_order (rule # rest) reg =
     (case validate rule reg of
        (res, rule', reg') \<Rightarrow>
          (case validate_in_order rest reg' of
             (ress, rest', reg'') \<Rightarrow> (res # ress, rule' # rest', reg'')))"

text \<open>A call passed when it returned a pair whose first component is true.\<close>

fun passed :: "exn + outcome \<Rightarrow> bool" where
  "passed (Inr (ok, msg)) = ok"
| "passed (Inl e) = False"

text \<open>The line \<^verbatim>\<open>register\<close> prints for a rule and the value its call returned.\<close>

fun printed_line :: "'a IValidationRule \<Rightarrow> exn + outcome \<Rightarrow> string" where
  "printed_line rule (Inr (ok, msg)) = status_line (rule_name rule) ok msg"
| "printed_line rule (Inl e) = []"

text \<open>
  An example of a rule class written outside the source file, as a test would: it counts
  the calls of its \<^verbatim>\<open>validate\<close> in its one attribute and returns a fixed value.
\<close>

abbreviation spy :: "string \<Rightarrow> outcome \<Rightarrow> nat \<Rightarrow> nat IValidationRule" where
  "spy cn res calls \<equiv> OtherRule cn calls (\<lambda>n reg. (Inr res, Suc n, reg))"



section \<open>Properties\<close>

subsection \<open>Integer formatting\<close>

lemma of_char_digit_char: "d < 10 \<Longrightarrow> (of_char (digit_char d) :: nat) = 48 + d"
proof -
  assume "d < 10"
  then have "d \<in> {0, 1, 2, 3, 4, 5, 6, 7, 8, 9}" by auto
  then show ?thesis by (auto simp: digit_char_def)
qed

lemma digits_value_str_nat: "digits_value (str_nat n) = n"
proof (induction n rule: str_nat.induct)
  case (1 n)
  show ?case
  proof (cases "n < 10")
    case True
    then show ?thesis
      by (simp add: str_nat.simps[of n] digits_value_def of_char_digit_char)
  next
    case False
    with 1 show ?thesis
      by (simp add: str_nat.simps[of n] digits_value_def of_char_digit_char)
  qed
qed

lemma hd_str_nat_not_minus: "str_nat n \<noteq> [] \<and> hd (str_nat n) \<noteq> CHR ''-''"
proof (induction n rule: str_nat.induct)
  case (1 n)
  show ?case
  proof (cases "n < 10")
    case True
    then have "n \<in> {0, 1, 2, 3, 4, 5, 6, 7, 8, 9}" by auto
    then show ?thesis by (auto simp: str_nat.simps[of n] digit_char_def)
  next
    case False
    with 1 show ?thesis by (simp add: str_nat.simps[of n])
  qed
qed

text \<open>The text produced for an integer denotes that integer, so it determines it.\<close>

lemma signed_value_str_int: "signed_value (str_int i) = i"
proof (cases "i < 0")
  case True
  then show ?thesis by (simp add: signed_value_def str_int_def digits_value_str_nat)
next
  case False
  obtain c cs where s: "str_nat (nat i) = c # cs" and c: "c \<noteq> CHR ''-''"
    using hd_str_nat_not_minus[of "nat i"] by (cases "str_nat (nat i)") auto
  have "digits_value (c # cs) = nat i" using digits_value_str_nat[of "nat i"] s by simp
  with False s c show ?thesis by (simp add: signed_value_def str_int_def)
qed

lemma sks_message_sublist: "sublist (str_int cap) (sks_message cap)"
  unfolding sks_message_def sublist_def by blast

subsection \<open>The credit-limit rule\<close>

text \<open>
  C2. For every request and every cap, calling \<^verbatim>\<open>validate\<close> on the credit-limit rule
  returns the failure exactly when current plus requested credit hours is strictly above
  the cap, and returns success exactly when the sum is at most the cap (equality
  included). The failure message is the fixed text around the decimal form of the cap,
  so it contains the cap.
\<close>

theorem sks_limit_rule_outcome:
  "(fst (validate (SksLimitRule cap) reg) = Inr (False, sks_message cap)
      \<longleftrightarrow> cap < current_sks reg + requested_sks reg)
   \<and> (fst (validate (SksLimitRule cap) reg) = Inr (True, '''')
      \<longleftrightarrow> current_sks reg + requested_sks reg \<le> cap)
   \<and> sks_message cap = ''Gagal: Melebihi batas SKS (max '' @ str_int cap @ '').''
   \<and> sublist (str_int cap) (sks_message cap)
   \<and> signed_value (str_int cap) = cap"
  by (simp add: SksLimitRule_validate_def sks_message_sublist signed_value_str_int)
     (simp add: sks_message_def)

theorem sks_limit_rule_outcome_witness:
  "fst (validate (SksLimitRule 24 :: unit IValidationRule) demo_reg) = Inr (True, '''')
   \<and> fst (validate (SksLimitRule 24 :: unit IValidationRule) (demo_reg\<lparr>current_sks := 20\<rparr>))
       = Inr (False, ''Gagal: Melebihi batas SKS (max 24).'')"
proof -
  have le: "current_sks demo_reg + requested_sks demo_reg \<le> 24"
    by (simp add: demo_reg_def)
  have gt: "24 < current_sks (demo_reg\<lparr>current_sks := 20\<rparr>)
      + requested_sks (demo_reg\<lparr>current_sks := 20\<rparr>)"
    by (simp add: demo_reg_def)
  have m: "sks_message 24 = ''Gagal: Melebihi batas SKS (max 24).''"
    by (simp add: sks_message_def str_int_def str_nat.simps digit_char_def)
  from le gt m show ?thesis
    using sks_limit_rule_outcome[of 24 demo_reg, where 'a = unit]
      sks_limit_rule_outcome[of 24 "demo_reg\<lparr>current_sks := 20\<rparr>", where 'a = unit]
    by simp
qed

subsection \<open>The prerequisite rule\<close>

lemma prereq_inner_None:
  "prereq_inner completed course reqs = None \<longleftrightarrow> set reqs \<subseteq> set completed"
  by (induction reqs) auto

lemma prereq_inner_first:
  "set rs1 \<subseteq> set completed \<Longrightarrow> r \<notin> set completed \<Longrightarrow>
   prereq_inner completed course (rs1 @ r # rs2) = Some (False, prereq_message r course)"
  by (induction rs1) auto

lemma prereq_inner_Some_False:
  "prereq_inner completed course reqs = Some res \<Longrightarrow> fst res = False"
  by (induction reqs) (auto split: if_splits)

lemma prereq_outer_skip:
  "\<forall>c' \<in> set cs1. set (required_of pm c') \<subseteq> set completed \<Longrightarrow>
   prereq_outer pm completed (cs1 @ cs) = prereq_outer pm completed cs"
  by (induction cs1) (auto simp: prereq_inner_None[THEN iffD2])

lemma prereq_outer_True:
  "prereq_outer pm completed cs = (True, msg) \<longleftrightarrow>
     msg = '''' \<and> (\<forall>c \<in> set cs. set (required_of pm c) \<subseteq> set completed)"
proof (induction cs)
  case Nil
  show ?case by auto
next
  case (Cons c cs)
  show ?case
  proof (cases "prereq_inner completed c (required_of pm c)")
    case None
    then have "set (required_of pm c) \<subseteq> set completed"
      by (simp add: prereq_inner_None)
    with Cons None show ?thesis by simp
  next
    case (Some res)
    then have "fst res = False" by (rule prereq_inner_Some_False)
    moreover from Some have "\<not> set (required_of pm c) \<subseteq> set completed"
      using prereq_inner_None[of completed c "required_of pm c"] by simp
    ultimately show ?thesis using Some by (cases res) auto
  qed
qed

text \<open>
  C3. Let the requested courses be \<open>cs1 @ c # cs2\<close> and the prerequisite list of \<open>c\<close>
  be \<open>rs1 @ r # rs2\<close>. If every prerequisite of every course of \<open>cs1\<close> and every
  prerequisite in \<open>rs1\<close> is among the completed courses and \<open>r\<close> is not, the rule
  returns the failure whose message names \<open>r\<close> and \<open>c\<close>. It returns success exactly
  when every prerequisite of every requested course is among the completed courses. The
  prerequisite list of a course is its entry in the map, and empty when it has none.
\<close>

theorem prerequisite_rule_first_missing:
  "(requested_courses reg = cs1 @ c # cs2 \<and> required_of pm c = rs1 @ r # rs2
      \<and> (\<forall>c' \<in> set cs1. \<forall>r' \<in> set (required_of pm c'). r' \<in> set (completed_courses reg))
      \<and> (\<forall>r' \<in> set rs1. r' \<in> set (completed_courses reg))
      \<and> r \<notin> set (completed_courses reg)
    \<longrightarrow> fst (validate (PrerequisiteRule pm) reg)
          = Inr (False, ''Gagal: Prasyarat '' @ r @ '' belum terpenuhi untuk '' @ c @ ''.''))
   \<and> ((\<forall>c' \<in> set (requested_courses reg). \<forall>r' \<in> set (required_of pm c').
          r' \<in> set (completed_courses reg))
      \<longleftrightarrow> fst (validate (PrerequisiteRule pm) reg) = Inr (True, ''''))
   \<and> (map_of pm c = None \<longrightarrow> required_of pm c = [])
   \<and> (map_of pm c = Some rs \<longrightarrow> required_of pm c = rs)"
proof (intro conjI impI)
  assume a: "requested_courses reg = cs1 @ c # cs2 \<and> required_of pm c = rs1 @ r # rs2
      \<and> (\<forall>c' \<in> set cs1. \<forall>r' \<in> set (required_of pm c'). r' \<in> set (completed_courses reg))
      \<and> (\<forall>r' \<in> set rs1. r' \<in> set (completed_courses reg))
      \<and> r \<notin> set (completed_courses reg)"
  then have skip: "prereq_outer pm (completed_courses reg) (cs1 @ c # cs2)
      = prereq_outer pm (completed_courses reg) (c # cs2)"
    by (intro prereq_outer_skip) auto
  from a have "prereq_inner (completed_courses reg) c (rs1 @ r # rs2)
      = Some (False, prereq_message r c)"
    by (intro prereq_inner_first) auto
  with a skip show "fst (validate (PrerequisiteRule pm) reg)
          = Inr (False, ''Gagal: Prasyarat '' @ r @ '' belum terpenuhi untuk '' @ c @ ''.'')"
    by (simp add: PrerequisiteRule_validate_def prereq_message_def)
next
  show "(\<forall>c' \<in> set (requested_courses reg). \<forall>r' \<in> set (required_of pm c').
          r' \<in> set (completed_courses reg))
      \<longleftrightarrow> fst (validate (PrerequisiteRule pm) reg) = Inr (True, '''')"
    by (auto simp: PrerequisiteRule_validate_def prereq_outer_True)
qed (simp_all add: required_of_def)

theorem prerequisite_rule_first_missing_witness:
  "fst (validate (PrerequisiteRule [(''CS201'', [''CS101'', ''CS102''])] :: unit IValidationRule)
         (demo_reg\<lparr>requested_courses := [''MA101'', ''CS201'']\<rparr>))
     = Inr (False, ''Gagal: Prasyarat CS102 belum terpenuhi untuk CS201.'')
   \<and> fst (validate (PrerequisiteRule [(''CS201'', [''CS101''])] :: unit IValidationRule) demo_reg)
     = Inr (True, '''')
   \<and> required_of [(''CS201'', [''CS101''])] ''MA101'' = []"
proof -
  let ?pm = "[(''CS201'', [''CS101'', ''CS102''])]"
  let ?reg = "demo_reg\<lparr>requested_courses := [''MA101'', ''CS201'']\<rparr>"
  have h: "requested_courses ?reg = [''MA101''] @ ''CS201'' # []
      \<and> required_of ?pm ''CS201'' = [''CS101''] @ ''CS102'' # []
      \<and> (\<forall>c' \<in> set [''MA101'']. \<forall>r' \<in> set (required_of ?pm c'). r' \<in> set (completed_courses ?reg))
      \<and> (\<forall>r' \<in> set [''CS101'']. r' \<in> set (completed_courses ?reg))
      \<and> ''CS102'' \<notin> set (completed_courses ?reg)"
    by (simp add: demo_reg_def required_of_def)
  have fail: "fst (validate (PrerequisiteRule ?pm :: unit IValidationRule) ?reg)
     = Inr (False, ''Gagal: Prasyarat CS102 belum terpenuhi untuk CS201.'')"
    using prerequisite_rule_first_missing[of ?reg "[''MA101'']" "''CS201''" "[]" ?pm
        "[''CS101'']" "''CS102''" "[]", where 'a = unit, THEN conjunct1] h
    by simp
  have all: "\<forall>c' \<in> set (requested_courses demo_reg).
      \<forall>r' \<in> set (required_of [(''CS201'', [''CS101''])] c'). r' \<in> set (completed_courses demo_reg)"
    by (simp add: demo_reg_def required_of_def)
  have pass: "fst (validate (PrerequisiteRule [(''CS201'', [''CS101''])] :: unit IValidationRule)
      demo_reg) = Inr (True, '''')"
    using prerequisite_rule_first_missing[of demo_reg _ _ _ "[(''CS201'', [''CS101''])]",
        where 'a = unit, THEN conjunct2, THEN conjunct1] all
    by blast
  have none: "required_of [(''CS201'', [''CS101''])] ''MA101'' = []"
    by (simp add: required_of_def)
  from fail pass none show ?thesis by blast
qed

subsection \<open>The schedule-conflict rule\<close>

lemma slots_of_append: "slots_of csm (xs @ ys) = slots_of csm xs @ slots_of csm ys"
  by (induction xs) (auto split: option.splits)

lemma slots_of_mem: "c \<in> set cs \<Longrightarrow> map_of csm c = Some s \<Longrightarrow> s \<in> set (slots_of csm cs)"
  by (induction cs) (auto split: option.splits)

lemma jadwal_loop_prefix:
  "distinct (slots_of csm pre) \<Longrightarrow> set (slots_of csm pre) \<inter> occupied = {} \<Longrightarrow>
   jadwal_loop csm occupied (pre @ rest) = jadwal_loop csm (occupied \<union> set (slots_of csm pre)) rest"
proof (induction pre arbitrary: occupied)
  case Nil
  show ?case by simp
next
  case (Cons c pre)
  show ?case
  proof (cases "map_of csm c")
    case None
    with Cons show ?thesis by simp
  next
    case (Some s)
    with Cons.prems have d: "distinct (slots_of csm pre)" and n: "s \<notin> set (slots_of csm pre)"
      and o: "s \<notin> occupied" and i: "set (slots_of csm pre) \<inter> occupied = {}"
      by auto
    from n i have "set (slots_of csm pre) \<inter> insert s occupied = {}" by auto
    from Cons.IH[OF d this] Some o show ?thesis by simp
  qed
qed

lemma jadwal_loop_True:
  "jadwal_loop csm occupied cs = (True, msg) \<longleftrightarrow>
     msg = '''' \<and> distinct (slots_of csm cs) \<and> set (slots_of csm cs) \<inter> occupied = {}"
proof (induction cs arbitrary: occupied)
  case Nil
  show ?case by auto
next
  case (Cons c cs)
  show ?case
  proof (cases "map_of csm c")
    case None
    with Cons show ?thesis by simp
  next
    case (Some s)
    show ?thesis
    proof (cases "s \<in> occupied")
      case True
      with Some show ?thesis by auto
    next
      case False
      with Some Cons[of "insert s occupied"] show ?thesis by auto
    qed
  qed
qed

lemma jadwal_loop_False:
  "jadwal_loop csm occupied cs = (False, msg) \<Longrightarrow>
     \<exists>c s. c \<in> set cs \<and> map_of csm c = Some s \<and> msg = jadwal_message c s"
proof (induction cs arbitrary: occupied)
  case Nil
  then show ?case by simp
next
  case (Cons c cs)
  then show ?case by (fastforce split: option.splits if_splits)
qed

text \<open>
  C4. The rule runs its loop over the requested courses from the occupied set that is the
  union of the configured existing schedule and the request's schedule. A course with no
  entry in the course-to-slot map leaves the loop's state as it is. While the slots met
  so far are pairwise different and none is occupied, the loop goes on with the occupied
  set enlarged by exactly those slots. So the first requested course whose slot is in the
  initial occupied set or is the slot of an earlier requested course yields the failure
  whose message names that course and slot; success is returned exactly when the slots
  of the requested courses are pairwise different and none is in the initial occupied
  set; and every failure names a requested course that has a slot.
\<close>

theorem jadwal_bentrok_rule_outcome:
  "fst (validate (JadwalBentrokRule es csm) reg)
     = Inr (jadwal_loop csm (set es \<union> set (schedule reg)) (requested_courses reg))
   \<and> (map_of csm c = None \<longrightarrow> jadwal_loop csm occupied (c # rest) = jadwal_loop csm occupied rest)
   \<and> (distinct (slots_of csm pre) \<and> set (slots_of csm pre) \<inter> occupied = {}
        \<longrightarrow> jadwal_loop csm occupied (pre @ rest)
            = jadwal_loop csm (occupied \<union> set (slots_of csm pre)) rest)
   \<and> (requested_courses reg = pre @ c # post \<and> map_of csm c = Some s
        \<and> distinct (slots_of csm pre)
        \<and> set (slots_of csm pre) \<inter> (set es \<union> set (schedule reg)) = {}
        \<and> s \<in> set es \<union> set (schedule reg) \<union> set (slots_of csm pre)
      \<longrightarrow> fst (validate (JadwalBentrokRule es csm) reg)
          = Inr (False, ''Gagal: Jadwal bentrok untuk '' @ c @ '' pada slot '' @ s @ ''.''))
   \<and> (fst (validate (JadwalBentrokRule es csm) reg) = Inr (True, '''')
        \<longleftrightarrow> distinct (slots_of csm (requested_courses reg))
            \<and> set (slots_of csm (requested_courses reg)) \<inter> (set es \<union> set (schedule reg)) = {})
   \<and> (fst (validate (JadwalBentrokRule es csm) reg) = Inr (False, msg)
        \<longrightarrow> (\<exists>c' s'. c' \<in> set (requested_courses reg) \<and> map_of csm c' = Some s'
               \<and> msg = jadwal_message c' s'))"
proof (intro conjI impI)
  show "fst (validate (JadwalBentrokRule es csm) reg)
     = Inr (jadwal_loop csm (set es \<union> set (schedule reg)) (requested_courses reg))"
    by (simp add: JadwalBentrokRule_validate_def)
next
  assume "map_of csm c = None"
  then show "jadwal_loop csm occupied (c # rest) = jadwal_loop csm occupied rest" by simp
next
  assume "distinct (slots_of csm pre) \<and> set (slots_of csm pre) \<inter> occupied = {}"
  then show "jadwal_loop csm occupied (pre @ rest)
            = jadwal_loop csm (occupied \<union> set (slots_of csm pre)) rest"
    by (simp add: jadwal_loop_prefix)
next
  assume a: "requested_courses reg = pre @ c # post \<and> map_of csm c = Some s
        \<and> distinct (slots_of csm pre)
        \<and> set (slots_of csm pre) \<inter> (set es \<union> set (schedule reg)) = {}
        \<and> s \<in> set es \<union> set (schedule reg) \<union> set (slots_of csm pre)"
  then have "jadwal_loop csm (set es \<union> set (schedule reg)) (pre @ c # post)
      = jadwal_loop csm (set es \<union> set (schedule reg) \<union> set (slots_of csm pre)) (c # post)"
    by (intro jadwal_loop_prefix) auto
  with a show "fst (validate (JadwalBentrokRule es csm) reg)
          = Inr (False, ''Gagal: Jadwal bentrok untuk '' @ c @ '' pada slot '' @ s @ ''.'')"
    by (simp add: JadwalBentrokRule_validate_def jadwal_message_def)
next
  show "fst (validate (JadwalBentrokRule es csm) reg) = Inr (True, '''')
        \<longleftrightarrow> distinct (slots_of csm (requested_courses reg))
            \<and> set (slots_of csm (requested_courses reg)) \<inter> (set es \<union> set (schedule reg)) = {}"
    by (simp add: JadwalBentrokRule_validate_def jadwal_loop_True)
next
  assume "fst (validate (JadwalBentrokRule es csm) reg) = Inr (False, msg)"
  then have "jadwal_loop csm (set (es @ schedule reg)) (requested_courses reg) = (False, msg)"
    by (simp add: JadwalBentrokRule_validate_def)
  then show "\<exists>c' s'. c' \<in> set (requested_courses reg) \<and> map_of csm c' = Some s'
               \<and> msg = jadwal_message c' s'"
    by (rule jadwal_loop_False)
qed

theorem jadwal_bentrok_rule_outcome_witness:
  "fst (validate (JadwalBentrokRule [] default_course_slot_map :: unit IValidationRule)
         (demo_reg\<lparr>requested_courses := [''CS101'', ''XX999'', ''CS201''], schedule := [''Tue-11'']\<rparr>))
     = Inr (False, ''Gagal: Jadwal bentrok untuk CS201 pada slot Mon-09.'')
   \<and> fst (validate (JadwalBentrokRule [''Mon-09''] default_course_slot_map :: unit IValidationRule)
         demo_reg)
     = Inr (False, ''Gagal: Jadwal bentrok untuk CS201 pada slot Mon-09.'')
   \<and> fst (validate (JadwalBentrokRule [''Mon-09''] default_course_slot_map :: unit IValidationRule)
         (demo_reg\<lparr>requested_courses := [''XX999'', ''CS102'']\<rparr>))
     = Inr (True, '''')"
proof -
  let ?csm = default_course_slot_map
  let ?r1 = "demo_reg\<lparr>requested_courses := [''CS101'', ''XX999'', ''CS201''], schedule := [''Tue-11'']\<rparr>"
  let ?r3 = "demo_reg\<lparr>requested_courses := [''XX999'', ''CS102'']\<rparr>"
  have h1: "requested_courses ?r1 = [''CS101'', ''XX999''] @ ''CS201'' # []
        \<and> map_of ?csm ''CS201'' = Some ''Mon-09''
        \<and> distinct (slots_of ?csm [''CS101'', ''XX999''])
        \<and> set (slots_of ?csm [''CS101'', ''XX999'']) \<inter> (set [] \<union> set (schedule ?r1)) = {}
        \<and> ''Mon-09'' \<in> set [] \<union> set (schedule ?r1) \<union> set (slots_of ?csm [''CS101'', ''XX999''])"
    by (simp add: demo_reg_def default_course_slot_map_def)
  have h2: "requested_courses demo_reg = [] @ ''CS201'' # [''MA101'']
        \<and> map_of ?csm ''CS201'' = Some ''Mon-09''
        \<and> distinct (slots_of ?csm [])
        \<and> set (slots_of ?csm []) \<inter> (set [''Mon-09''] \<union> set (schedule demo_reg)) = {}
        \<and> ''Mon-09'' \<in> set [''Mon-09''] \<union> set (schedule demo_reg) \<union> set (slots_of ?csm [])"
    by (simp add: demo_reg_def default_course_slot_map_def)
  have h3: "distinct (slots_of ?csm (requested_courses ?r3))
        \<and> set (slots_of ?csm (requested_courses ?r3)) \<inter> (set [''Mon-09''] \<union> set (schedule ?r3)) = {}"
    by (simp add: demo_reg_def default_course_slot_map_def)
  have c1: "fst (validate (JadwalBentrokRule [] ?csm :: unit IValidationRule) ?r1)
     = Inr (False, ''Gagal: Jadwal bentrok untuk CS201 pada slot Mon-09.'')"
    using jadwal_bentrok_rule_outcome[where 'a = unit and es = "[]" and csm = ?csm and reg = ?r1
        and pre = "[''CS101'', ''XX999'']" and c = "''CS201''" and post = "[]" and s = "''Mon-09''",
        THEN conjunct2, THEN conjunct2, THEN conjunct2, THEN conjunct1, THEN mp, OF h1]
    by simp
  have c2: "fst (validate (JadwalBentrokRule [''Mon-09''] ?csm :: unit IValidationRule) demo_reg)
     = Inr (False, ''Gagal: Jadwal bentrok untuk CS201 pada slot Mon-09.'')"
    using jadwal_bentrok_rule_outcome[where 'a = unit and es = "[''Mon-09'']" and csm = ?csm
        and reg = demo_reg and pre = "[]" and c = "''CS201''" and post = "[''MA101'']"
        and s = "''Mon-09''",
        THEN conjunct2, THEN conjunct2, THEN conjunct2, THEN conjunct1, THEN mp, OF h2]
    by simp
  have c3: "fst (validate (JadwalBentrokRule [''Mon-09''] ?csm :: unit IValidationRule) ?r3)
     = Inr (True, '''')"
    using jadwal_bentrok_rule_outcome[where 'a = unit and es = "[''Mon-09'']" and csm = ?csm
        and reg = ?r3,
        THEN conjunct2, THEN conjunct2, THEN conjunct2, THEN conjunct2, THEN conjunct1,
        THEN iffD2, OF h3]
    by simp
  from c1 c2 c3 show ?thesis by blast
qed

subsection \<open>The coordinator\<close>

lemma register_loop_pass_prefix:
  "validate_in_order pre reg = (ress, pre', reg1) \<Longrightarrow> \<forall>res \<in> set ress. passed res \<Longrightarrow>
   register_loop (pre @ rest) reg =
     (case register_loop rest reg1 of
        (res, rest', reg2, out) \<Rightarrow> (res, pre' @ rest', reg2, map2 printed_line pre' ress @ out))"
proof (induction pre arbitrary: reg ress pre' reg1)
  case Nil
  then show ?case by (simp split: prod.splits)
next
  case (Cons rule pre)
  obtain res rule' reg' where v: "validate rule reg = (res, rule', reg')"
    by (cases "validate rule reg") auto
  obtain ress0 pre0 reg0 where vs: "validate_in_order pre reg' = (ress0, pre0, reg0)"
    by (cases "validate_in_order pre reg'") auto
  from Cons.prems(1) v vs have eqs: "ress = res # ress0" "pre' = rule' # pre0" "reg1 = reg0"
    by auto
  with Cons.prems(2) have p: "passed res" and ps: "\<forall>r \<in> set ress0. passed r" by auto
  from p obtain msg where res: "res = Inr (True, msg)"
    by (cases res) (auto split: prod.splits)
  note IH = Cons.IH[OF vs ps]
  show ?case
    using v res eqs IH by (simp split: prod.splits)
qed

text \<open>
  Either every call passes, or there is a first rule whose call does not, so the cases
  treated below (all calls pass; a first call fails; a first call raises) cover every run.
\<close>

lemma validate_in_order_first_not_passed:
  "\<not> (\<forall>res \<in> set (fst (validate_in_order rs reg)). passed res) \<Longrightarrow>
   \<exists>pre rule post ress pre' reg1 res rule' reg2.
     rs = pre @ rule # post \<and> validate_in_order pre reg = (ress, pre', reg1)
     \<and> (\<forall>x \<in> set ress. passed x) \<and> validate rule reg1 = (res, rule', reg2) \<and> \<not> passed res"
proof (induction rs arbitrary: reg)
  case Nil
  then show ?case by simp
next
  case (Cons r rs)
  obtain res r' reg' where v: "validate r reg = (res, r', reg')"
    by (cases "validate r reg") auto
  show ?case
  proof (cases "passed res")
    case False
    with v have "r # rs = [] @ r # rs \<and> validate_in_order [] reg = ([], [], reg)
        \<and> (\<forall>x \<in> set []. passed x) \<and> validate r reg = (res, r', reg') \<and> \<not> passed res"
      by simp
    then show ?thesis by blast
  next
    case True
    with Cons.prems v have "\<not> (\<forall>x \<in> set (fst (validate_in_order rs reg')). passed x)"
      by (auto split: prod.splits)
    from Cons.IH[OF this] obtain pre rule post ress pre' reg1 res2 rule' reg2 where
      s: "rs = pre @ rule # post" and o: "validate_in_order pre reg' = (ress, pre', reg1)"
      and p: "\<forall>x \<in> set ress. passed x" and f: "validate rule reg1 = (res2, rule', reg2)"
      and n: "\<not> passed res2"
      by blast
    from s o p f n v True have "r # rs = (r # pre) @ rule # post
        \<and> validate_in_order (r # pre) reg = (res # ress, r' # pre', reg1)
        \<and> (\<forall>x \<in> set (res # ress). passed x) \<and> validate rule reg1 = (res2, rule', reg2)
        \<and> \<not> passed res2"
      by simp
    then show ?thesis by blast
  qed
qed

text \<open>An exception raised by a rule's \<^verbatim>\<open>validate\<close> escapes from \<^verbatim>\<open>register\<close>.\<close>

lemma register_loop_exception:
  "validate_in_order pre reg = (ress, pre', reg1) \<Longrightarrow> \<forall>res \<in> set ress. passed res \<Longrightarrow>
   validate rule reg1 = (Inl e, rule', reg2) \<Longrightarrow>
   register_loop (pre @ rule # post) reg
     = (Inl e, pre' @ rule' # post, reg2, map2 printed_line pre' ress)"
  using register_loop_pass_prefix[of pre reg ress pre' reg1 "rule # post"] by simp

lemma abstract_method_raises:
  "fst (register \<lparr>rules = [OtherRule ''Bare'' () (\<lambda>st reg. (IValidationRule_validate reg, st, reg))]\<rparr> reg)
     = Inl NotImplementedError"
  by (simp add: register_def IValidationRule_validate_def)

text \<open>
  C1. Let the rule list be \<open>pre @ rule # post\<close>. If the calls of \<^verbatim>\<open>validate\<close> on the
  rules of \<open>pre\<close>, made in list order, all pass, and the call on \<open>rule\<close> that follows
  returns a failure with message \<open>msg\<close>, then \<^verbatim>\<open>register\<close> returns the failure with
  that same message; the rules of \<open>pre\<close> and \<open>rule\<close> are left as those calls left
  them, the rules of \<open>post\<close> are left as they were (no method of theirs was called), and
  one line per call made has been printed. If the calls on all rules pass, it returns
  success with the message \<^verbatim>\<open>Registrasi berhasil.\<close>
\<close>

theorem register_fail_fast:
  "(rules self = pre @ rule # post \<and> validate_in_order pre reg = (ress, pre', reg1)
      \<and> (\<forall>res \<in> set ress. passed res)
      \<and> validate rule reg1 = (Inr (False, msg), rule', reg2)
    \<longrightarrow> register self reg
          = (Inr (False, msg), self\<lparr>rules := pre' @ rule' # post\<rparr>, reg2,
             map2 printed_line pre' ress @ [status_line (rule_name rule') False msg]))
   \<and> (validate_in_order (rules self) reg = (ress, rules', reg1)
      \<and> (\<forall>res \<in> set ress. passed res)
    \<longrightarrow> register self reg
          = (Inr (True, ''Registrasi berhasil.''), self\<lparr>rules := rules'\<rparr>, reg1,
             map2 printed_line rules' ress))"
proof (intro conjI impI)
  assume a: "rules self = pre @ rule # post \<and> validate_in_order pre reg = (ress, pre', reg1)
      \<and> (\<forall>res \<in> set ress. passed res)
      \<and> validate rule reg1 = (Inr (False, msg), rule', reg2)"
  then have "register_loop (pre @ rule # post) reg =
     (case register_loop (rule # post) reg1 of
        (res, rest', reg2, out) \<Rightarrow> (res, pre' @ rest', reg2, map2 printed_line pre' ress @ out))"
    by (intro register_loop_pass_prefix) auto
  with a show "register self reg
          = (Inr (False, msg), self\<lparr>rules := pre' @ rule' # post\<rparr>, reg2,
             map2 printed_line pre' ress @ [status_line (rule_name rule') False msg])"
    by (simp add: register_def)
next
  assume a: "validate_in_order (rules self) reg = (ress, rules', reg1)
      \<and> (\<forall>res \<in> set ress. passed res)"
  then have "register_loop (rules self @ []) reg =
     (case register_loop [] reg1 of
        (res, rest', reg2, out) \<Rightarrow> (res, rules' @ rest', reg2, map2 printed_line rules' ress @ out))"
    by (intro register_loop_pass_prefix) auto
  then show "register self reg
          = (Inr (True, ''Registrasi berhasil.''), self\<lparr>rules := rules'\<rparr>, reg1,
             map2 printed_line rules' ress)"
    by (simp add: register_def)
qed

theorem register_fail_fast_witness:
  "register \<lparr>rules = [SksLimitRule 24, spy ''A'' (False, ''A refuses'') 0, spy ''B'' (False, ''B refuses'') 0]\<rparr>
      demo_reg
     = (Inr (False, ''A refuses''),
        \<lparr>rules = [SksLimitRule 24, spy ''A'' (False, ''A refuses'') 1, spy ''B'' (False, ''B refuses'') 0]\<rparr>,
        demo_reg, [''[SksLimitRule] -> OK'', ''[A] -> FAIL - A refuses''])
   \<and> register \<lparr>rules = [SksLimitRule 24, spy ''A'' (True, '''') 0]\<rparr> demo_reg
     = (Inr (True, ''Registrasi berhasil.''),
        \<lparr>rules = [SksLimitRule 24, spy ''A'' (True, '''') 1]\<rparr>,
        demo_reg, [''[SksLimitRule] -> OK'', ''[A] -> OK''])"
proof -
  let ?A = "spy ''A'' (False, ''A refuses'')"
  let ?B = "spy ''B'' (False, ''B refuses'')"
  let ?s1 = "\<lparr>rules = [SksLimitRule 24, ?A 0, ?B 0]\<rparr>"
  let ?s2 = "\<lparr>rules = [SksLimitRule 24, spy ''A'' (True, '''') 0]\<rparr>"
  have h1: "rules ?s1 = [SksLimitRule 24] @ ?A 0 # [?B 0]
      \<and> validate_in_order [SksLimitRule 24] demo_reg = ([Inr (True, '''')], [SksLimitRule 24], demo_reg)
      \<and> (\<forall>res \<in> set [Inr (True, '''')]. passed res)
      \<and> validate (?A 0) demo_reg = (Inr (False, ''A refuses''), ?A 1, demo_reg)"
    by (simp add: SksLimitRule_validate_def demo_reg_def)
  have h2: "validate_in_order (rules ?s2) demo_reg
        = ([Inr (True, ''''), Inr (True, '''')], [SksLimitRule 24, spy ''A'' (True, '''') 1], demo_reg)
      \<and> (\<forall>res \<in> set [Inr (True, ''''), Inr (True, '''')]. passed res)"
    by (simp add: SksLimitRule_validate_def demo_reg_def)
  have c1: "register ?s1 demo_reg
     = (Inr (False, ''A refuses''), \<lparr>rules = [SksLimitRule 24, ?A 1, ?B 0]\<rparr>,
        demo_reg, [''[SksLimitRule] -> OK'', ''[A] -> FAIL - A refuses''])"
    using register_fail_fast[THEN conjunct1, THEN mp, OF h1]
    by (simp add: status_line_def)
  have c2: "register ?s2 demo_reg
     = (Inr (True, ''Registrasi berhasil.''),
        \<lparr>rules = [SksLimitRule 24, spy ''A'' (True, '''') 1]\<rparr>,
        demo_reg, [''[SksLimitRule] -> OK'', ''[A] -> OK''])"
    using register_fail_fast[THEN conjunct2, THEN mp, OF h2]
    by (simp add: status_line_def)
  from c1 c2 show ?thesis by blast
qed

subsection \<open>Rules of the source: no exception, no change of state\<close>

lemma validate_source_rule:
  "source_rule rule \<Longrightarrow> \<exists>ok msg. validate rule reg = (Inr (ok, msg), rule, reg)"
  by (cases rule) (auto intro: prod.exhaust)

lemma register_loop_source_rules:
  "\<forall>r \<in> set rs. source_rule r \<Longrightarrow>
   \<exists>ok msg out. register_loop rs reg = (Inr (ok, msg), rs, reg, out)"
proof (induction rs)
  case Nil
  show ?case by auto
next
  case (Cons r rs)
  then obtain ok msg where v: "validate r reg = (Inr (ok, msg), r, reg)"
    using validate_source_rule[of r reg] by auto
  from Cons obtain ok' msg' out where l: "register_loop rs reg = (Inr (ok', msg'), rs, reg, out)"
    by auto
  show ?case using v l by (cases ok) auto
qed

lemma register_loop_source_failure:
  "\<forall>r \<in> set rs. source_rule r \<Longrightarrow> fst (register_loop rs reg) = Inr (False, msg) \<Longrightarrow>
   \<exists>pre r post. rs = pre @ r # post
     \<and> (\<forall>p \<in> set pre. \<exists>m. fst (validate p reg) = Inr (True, m))
     \<and> fst (validate r reg) = Inr (False, msg)"
proof (induction rs)
  case Nil
  then show ?case by simp
next
  case (Cons r rs)
  then obtain ok m where v: "validate r reg = (Inr (ok, m), r, reg)"
    using validate_source_rule[of r reg] by auto
  show ?case
  proof (cases ok)
    case False
    with v Cons.prems(2) have "m = msg" by simp
    with v False have "r # rs = [] @ r # rs \<and> (\<forall>p \<in> set []. \<exists>m. fst (validate p reg) = Inr (True, m))
        \<and> fst (validate r reg) = Inr (False, msg)" by simp
    then show ?thesis by blast
  next
    case True
    with v Cons.prems(2) have "fst (register_loop rs reg) = Inr (False, msg)"
      by (simp split: prod.splits)
    with Cons obtain pre r' post where s: "rs = pre @ r' # post"
       and p: "\<forall>p \<in> set pre. \<exists>m. fst (validate p reg) = Inr (True, m)"
       and f: "fst (validate r' reg) = Inr (False, msg)"
      by auto
    from s p f v True have "r # rs = (r # pre) @ r' # post
        \<and> (\<forall>p \<in> set (r # pre). \<exists>m. fst (validate p reg) = Inr (True, m))
        \<and> fst (validate r' reg) = Inr (False, msg)" by simp
    then show ?thesis by blast
  qed
qed

lemma prereq_outer_cases:
  "prereq_outer pm completed cs = (True, '''') \<or> (\<exists>msg. prereq_outer pm completed cs = (False, msg))"
  using prereq_outer_True[of pm completed cs]
  by (cases "prereq_outer pm completed cs") (metis (full_types))

lemma jadwal_loop_cases:
  "jadwal_loop csm occupied cs = (True, '''') \<or> (\<exists>msg. jadwal_loop csm occupied cs = (False, msg))"
  using jadwal_loop_True[of csm occupied cs]
  by (cases "jadwal_loop csm occupied cs") (metis (full_types))

lemma fst_register: "fst (register self reg) = fst (register_loop (rules self) reg)"
  by (simp add: register_def split: prod.splits)

lemma register_loop_source_first_failure:
  "\<forall>x \<in> set pre. source_rule x \<Longrightarrow> source_rule r \<Longrightarrow>
   \<forall>p \<in> set pre. \<exists>m. fst (validate p reg) = Inr (True, m) \<Longrightarrow>
   fst (validate r reg) = Inr (False, msg) \<Longrightarrow>
   fst (register_loop (pre @ r # post) reg) = Inr (False, msg)"
proof (induction pre)
  case Nil
  then obtain ok m where "validate r reg = (Inr (ok, m), r, reg)"
    using validate_source_rule[of r reg] by auto
  with Nil show ?case by simp
next
  case (Cons p pre)
  then obtain ok m where v: "validate p reg = (Inr (ok, m), p, reg)"
    using validate_source_rule[of p reg] by auto
  with Cons.prems(3) have ok: "ok" by auto
  from Cons have "fst (register_loop (pre @ r # post) reg) = Inr (False, msg)" by simp
  with v ok show ?case by (auto split: prod.splits)
qed

lemma register_loop_source_success:
  "\<forall>x \<in> set rs. source_rule x \<Longrightarrow>
   (fst (register_loop rs reg) = Inr (True, ''Registrasi berhasil.'')
     \<longleftrightarrow> (\<forall>r \<in> set rs. \<exists>m. fst (validate r reg) = Inr (True, m)))"
proof (induction rs)
  case Nil
  show ?case by simp
next
  case (Cons r rs)
  then obtain ok m where v: "validate r reg = (Inr (ok, m), r, reg)"
    using validate_source_rule[of r reg] by auto
  from Cons have IH: "fst (register_loop rs reg) = Inr (True, ''Registrasi berhasil.'')
     \<longleftrightarrow> (\<forall>r \<in> set rs. \<exists>m. fst (validate r reg) = Inr (True, m))" by simp
  show ?case
  proof (cases ok)
    case False
    with v show ?thesis by simp
  next
    case True
    with v IH show ?thesis by (auto split: prod.splits)
  qed
qed

text \<open>
  C6. Calling \<^verbatim>\<open>validate\<close> on a rule of one of the three classes of the source
  returns a pair and raises nothing, for every request, and so does \<^verbatim>\<open>register\<close> on
  a service all of whose rules are of those classes. Each expected failure condition
  gives a returned failure: credit hours above the cap; a prerequisite of a requested
  course that is not completed; a requested course whose slot is in the existing or the
  request's schedule; two requested courses with the same slot. When \<^verbatim>\<open>register\<close>
  returns a failure, its message is the one returned by the first rule in the list that
  fails, all rules before it having passed. And \<^verbatim>\<open>register\<close> does return it: when
  the rules before a rule pass and that rule returns a failure, \<^verbatim>\<open>register\<close> returns
  the failure with the same message (for rules of the source, and for any rules when the
  calls are taken in order on the request as the earlier calls left it); it returns
  success exactly when every rule passes.
\<close>

theorem source_rules_never_raise:
  "(source_rule rule \<longrightarrow> (\<exists>ok msg. fst (validate rule reg) = Inr (ok, msg)))
   \<and> ((\<forall>r \<in> set (rules self). source_rule r)
        \<longrightarrow> (\<exists>ok msg. fst (register self reg) = Inr (ok, msg)))
   \<and> (cap < current_sks reg + requested_sks reg
        \<longrightarrow> (\<exists>m. fst (validate (SksLimitRule cap) reg) = Inr (False, m)))
   \<and> (c \<in> set (requested_courses reg) \<and> r \<in> set (required_of pm c)
        \<and> r \<notin> set (completed_courses reg)
        \<longrightarrow> (\<exists>m. fst (validate (PrerequisiteRule pm) reg) = Inr (False, m)))
   \<and> (c \<in> set (requested_courses reg) \<and> map_of csm c = Some s
        \<and> s \<in> set es \<union> set (schedule reg)
        \<longrightarrow> (\<exists>m. fst (validate (JadwalBentrokRule es csm) reg) = Inr (False, m)))
   \<and> (requested_courses reg = xs @ c1 # ys @ c2 # zs \<and> map_of csm c1 = Some s
        \<and> map_of csm c2 = Some s
        \<longrightarrow> (\<exists>m. fst (validate (JadwalBentrokRule es csm) reg) = Inr (False, m)))
   \<and> ((\<forall>r \<in> set (rules self). source_rule r) \<and> fst (register self reg) = Inr (False, msg)
        \<longrightarrow> (\<exists>pre r post. rules self = pre @ r # post
              \<and> (\<forall>p \<in> set pre. \<exists>m. fst (validate p reg) = Inr (True, m))
              \<and> fst (validate r reg) = Inr (False, msg)))
   \<and> ((\<forall>r \<in> set (rules self). source_rule r) \<and> rules self = pre @ failing # post
        \<and> (\<forall>p \<in> set pre. \<exists>m. fst (validate p reg) = Inr (True, m))
        \<and> fst (validate failing reg) = Inr (False, msg)
        \<longrightarrow> fst (register self reg) = Inr (False, msg))
   \<and> (rules self = pre @ failing # post \<and> validate_in_order pre reg = (ress, pre', reg1)
        \<and> (\<forall>res \<in> set ress. passed res)
        \<and> validate failing reg1 = (Inr (False, msg), failing', reg2)
        \<longrightarrow> fst (register self reg) = Inr (False, msg))
   \<and> ((\<forall>r \<in> set (rules self). source_rule r)
        \<longrightarrow> (fst (register self reg) = Inr (True, ''Registrasi berhasil.'')
              \<longleftrightarrow> (\<forall>r \<in> set (rules self). \<exists>m. fst (validate r reg) = Inr (True, m))))"
proof -
  have p1: "source_rule rule \<longrightarrow> (\<exists>ok msg. fst (validate rule reg) = Inr (ok, msg))"
    using validate_source_rule[of rule reg] by auto
  have p2: "(\<forall>r \<in> set (rules self). source_rule r)
        \<longrightarrow> (\<exists>ok msg. fst (register self reg) = Inr (ok, msg))"
    using register_loop_source_rules[of "rules self" reg] by (auto simp: register_def)
  have p3: "cap < current_sks reg + requested_sks reg
        \<longrightarrow> (\<exists>m. fst (validate (SksLimitRule cap) reg) = Inr (False, m))"
    by (simp add: SksLimitRule_validate_def)
  have p4: "c \<in> set (requested_courses reg) \<and> r \<in> set (required_of pm c)
        \<and> r \<notin> set (completed_courses reg)
        \<longrightarrow> (\<exists>m. fst (validate (PrerequisiteRule pm) reg) = Inr (False, m))"
  proof
    assume "c \<in> set (requested_courses reg) \<and> r \<in> set (required_of pm c)
        \<and> r \<notin> set (completed_courses reg)"
    then have "prereq_outer pm (completed_courses reg) (requested_courses reg) \<noteq> (True, '''')"
      by (auto simp: prereq_outer_True)
    then show "\<exists>m. fst (validate (PrerequisiteRule pm) reg) = Inr (False, m)"
      using prereq_outer_cases[of pm "completed_courses reg" "requested_courses reg"]
      by (auto simp: PrerequisiteRule_validate_def)
  qed
  have p5: "c \<in> set (requested_courses reg) \<and> map_of csm c = Some s
        \<and> s \<in> set es \<union> set (schedule reg)
        \<longrightarrow> (\<exists>m. fst (validate (JadwalBentrokRule es csm) reg) = Inr (False, m))"
  proof
    assume a: "c \<in> set (requested_courses reg) \<and> map_of csm c = Some s
        \<and> s \<in> set es \<union> set (schedule reg)"
    then have "s \<in> set (slots_of csm (requested_courses reg))" by (auto intro: slots_of_mem)
    with a have "jadwal_loop csm (set (es @ schedule reg)) (requested_courses reg) \<noteq> (True, '''')"
      by (auto simp: jadwal_loop_True)
    then show "\<exists>m. fst (validate (JadwalBentrokRule es csm) reg) = Inr (False, m)"
      using jadwal_loop_cases[of csm "set (es @ schedule reg)" "requested_courses reg"]
      by (auto simp: JadwalBentrokRule_validate_def)
  qed
  have p6: "requested_courses reg = xs @ c1 # ys @ c2 # zs \<and> map_of csm c1 = Some s
        \<and> map_of csm c2 = Some s
        \<longrightarrow> (\<exists>m. fst (validate (JadwalBentrokRule es csm) reg) = Inr (False, m))"
  proof
    assume "requested_courses reg = xs @ c1 # ys @ c2 # zs \<and> map_of csm c1 = Some s
        \<and> map_of csm c2 = Some s"
    then have "\<not> distinct (slots_of csm (requested_courses reg))"
      by (simp add: slots_of_append)
    then have "jadwal_loop csm (set (es @ schedule reg)) (requested_courses reg) \<noteq> (True, '''')"
      by (simp add: jadwal_loop_True)
    then show "\<exists>m. fst (validate (JadwalBentrokRule es csm) reg) = Inr (False, m)"
      using jadwal_loop_cases[of csm "set (es @ schedule reg)" "requested_courses reg"]
      by (auto simp: JadwalBentrokRule_validate_def)
  qed
  have p7: "(\<forall>r \<in> set (rules self). source_rule r) \<and> fst (register self reg) = Inr (False, msg)
        \<longrightarrow> (\<exists>pre r post. rules self = pre @ r # post
              \<and> (\<forall>p \<in> set pre. \<exists>m. fst (validate p reg) = Inr (True, m))
              \<and> fst (validate r reg) = Inr (False, msg))"
  proof
    assume a: "(\<forall>r \<in> set (rules self). source_rule r) \<and> fst (register self reg) = Inr (False, msg)"
    then have "fst (register_loop (rules self) reg) = Inr (False, msg)"
      by (simp add: fst_register)
    with a show "\<exists>pre r post. rules self = pre @ r # post
              \<and> (\<forall>p \<in> set pre. \<exists>m. fst (validate p reg) = Inr (True, m))
              \<and> fst (validate r reg) = Inr (False, msg)"
      by (intro register_loop_source_failure) auto
  qed
  have p8: "(\<forall>r \<in> set (rules self). source_rule r) \<and> rules self = pre @ failing # post
        \<and> (\<forall>p \<in> set pre. \<exists>m. fst (validate p reg) = Inr (True, m))
        \<and> fst (validate failing reg) = Inr (False, msg)
        \<longrightarrow> fst (register self reg) = Inr (False, msg)"
  proof
    assume a: "(\<forall>r \<in> set (rules self). source_rule r) \<and> rules self = pre @ failing # post
        \<and> (\<forall>p \<in> set pre. \<exists>m. fst (validate p reg) = Inr (True, m))
        \<and> fst (validate failing reg) = Inr (False, msg)"
    then have "fst (register_loop (pre @ failing # post) reg) = Inr (False, msg)"
      by (intro register_loop_source_first_failure) auto
    with a show "fst (register self reg) = Inr (False, msg)"
      by (simp add: fst_register)
  qed
  have p9: "rules self = pre @ failing # post \<and> validate_in_order pre reg = (ress, pre', reg1)
        \<and> (\<forall>res \<in> set ress. passed res)
        \<and> validate failing reg1 = (Inr (False, msg), failing', reg2)
        \<longrightarrow> fst (register self reg) = Inr (False, msg)"
  proof
    assume a: "rules self = pre @ failing # post \<and> validate_in_order pre reg = (ress, pre', reg1)
        \<and> (\<forall>res \<in> set ress. passed res)
        \<and> validate failing reg1 = (Inr (False, msg), failing', reg2)"
    then have "register_loop (pre @ failing # post) reg =
       (case register_loop (failing # post) reg1 of
          (res, rest', reg2, out) \<Rightarrow> (res, pre' @ rest', reg2, map2 printed_line pre' ress @ out))"
      by (intro register_loop_pass_prefix) auto
    with a show "fst (register self reg) = Inr (False, msg)"
      by (simp add: register_def)
  qed
  have p10: "(\<forall>r \<in> set (rules self). source_rule r)
        \<longrightarrow> (fst (register self reg) = Inr (True, ''Registrasi berhasil.'')
              \<longleftrightarrow> (\<forall>r \<in> set (rules self). \<exists>m. fst (validate r reg) = Inr (True, m)))"
  proof
    assume "\<forall>r \<in> set (rules self). source_rule r"
    from register_loop_source_success[OF this, of reg]
    show "fst (register self reg) = Inr (True, ''Registrasi berhasil.'')
              \<longleftrightarrow> (\<forall>r \<in> set (rules self). \<exists>m. fst (validate r reg) = Inr (True, m))"
      by (simp add: fst_register)
  qed
  from p1 p2 p3 p4 p5 p6 p7 p8 p9 p10 show ?thesis by (intro conjI)
qed

theorem source_rules_never_raise_witness:
  "(\<exists>ok msg. fst (register \<lparr>rules = [SksLimitRule 24 :: unit IValidationRule,
        PrerequisiteRule [(''CS201'', [''CS101''])],
        JadwalBentrokRule [''Mon-09''] default_course_slot_map]\<rparr> demo_reg) = Inr (ok, msg))
   \<and> (\<exists>m. fst (validate (SksLimitRule 24 :: unit IValidationRule) (demo_reg\<lparr>current_sks := 20\<rparr>))
         = Inr (False, m))
   \<and> (\<exists>m. fst (validate (PrerequisiteRule [(''CS201'', [''CS101''])] :: unit IValidationRule)
         (demo_reg\<lparr>completed_courses := []\<rparr>)) = Inr (False, m))
   \<and> (\<exists>m. fst (validate (JadwalBentrokRule [''Mon-09''] default_course_slot_map :: unit IValidationRule)
         demo_reg) = Inr (False, m))
   \<and> (\<exists>m. fst (validate (JadwalBentrokRule [] default_course_slot_map :: unit IValidationRule)
         (demo_reg\<lparr>requested_courses := [''CS101'', ''CS201'']\<rparr>)) = Inr (False, m))
   \<and> fst (register \<lparr>rules = [SksLimitRule 24 :: unit IValidationRule,
        PrerequisiteRule [(''CS201'', [''CS101''])],
        JadwalBentrokRule [''Mon-09''] default_course_slot_map]\<rparr> demo_reg)
     = Inr (False, ''Gagal: Jadwal bentrok untuk CS201 pada slot Mon-09.'')
   \<and> fst (register \<lparr>rules = [SksLimitRule 24 :: unit IValidationRule,
        PrerequisiteRule [(''CS201'', [''CS101''])]]\<rparr> (demo_reg\<lparr>completed_courses := []\<rparr>))
     = Inr (False, ''Gagal: Prasyarat CS101 belum terpenuhi untuk CS201.'')
   \<and> fst (register \<lparr>rules = [spy ''P'' (True, '''') 0, spy ''F'' (False, ''F refuses'') 0,
        SksLimitRule 24]\<rparr> demo_reg)
     = Inr (False, ''F refuses'')
   \<and> fst (register \<lparr>rules = [SksLimitRule 24 :: unit IValidationRule,
        PrerequisiteRule [(''CS201'', [''CS101''])]]\<rparr> demo_reg)
     = Inr (True, ''Registrasi berhasil.'')"
proof -
  let ?sks = "SksLimitRule 24 :: unit IValidationRule"
  let ?pre = "PrerequisiteRule [(''CS201'', [''CS101''])] :: unit IValidationRule"
  let ?jad = "JadwalBentrokRule [''Mon-09''] default_course_slot_map :: unit IValidationRule"
  let ?self = "\<lparr>rules = [?sks, ?pre, ?jad]\<rparr>"
  let ?two = "\<lparr>rules = [?sks, ?pre]\<rparr>"
  let ?spies = "\<lparr>rules = [spy ''P'' (True, '''') 0, spy ''F'' (False, ''F refuses'') 0,
        SksLimitRule 24]\<rparr>"
  let ?r5 = "demo_reg\<lparr>requested_courses := [''CS101'', ''CS201'']\<rparr>"
  let ?nc = "demo_reg\<lparr>completed_courses := []\<rparr>"
  have h2: "\<forall>r \<in> set (rules ?self). source_rule r" by simp
  have h3: "24 < current_sks (demo_reg\<lparr>current_sks := 20\<rparr>)
      + requested_sks (demo_reg\<lparr>current_sks := 20\<rparr>)"
    by (simp add: demo_reg_def)
  have h4: "''CS201'' \<in> set (requested_courses ?nc)
      \<and> ''CS101'' \<in> set (required_of [(''CS201'', [''CS101''])] ''CS201'')
      \<and> ''CS101'' \<notin> set (completed_courses ?nc)"
    by (simp add: demo_reg_def required_of_def)
  have h5: "''CS201'' \<in> set (requested_courses demo_reg)
      \<and> map_of default_course_slot_map ''CS201'' = Some ''Mon-09''
      \<and> ''Mon-09'' \<in> set [''Mon-09''] \<union> set (schedule demo_reg)"
    by (simp add: demo_reg_def default_course_slot_map_def)
  have h6: "requested_courses ?r5 = [] @ ''CS101'' # [] @ ''CS201'' # []
      \<and> map_of default_course_slot_map ''CS101'' = Some ''Mon-09''
      \<and> map_of default_course_slot_map ''CS201'' = Some ''Mon-09''"
    by (simp add: demo_reg_def default_course_slot_map_def)
  have v1: "fst (validate ?sks demo_reg) = Inr (True, '''')"
    by (simp add: SksLimitRule_validate_def demo_reg_def)
  have v2: "fst (validate ?pre demo_reg) = Inr (True, '''')"
    by (simp add: PrerequisiteRule_validate_def demo_reg_def required_of_def)
  have v3: "fst (validate ?jad demo_reg)
      = Inr (False, ''Gagal: Jadwal bentrok untuk CS201 pada slot Mon-09.'')"
    by (simp add: JadwalBentrokRule_validate_def demo_reg_def default_course_slot_map_def
        jadwal_message_def)
  have v4: "fst (validate ?sks ?nc) = Inr (True, '''')"
    by (simp add: SksLimitRule_validate_def demo_reg_def)
  have v5: "fst (validate ?pre ?nc)
      = Inr (False, ''Gagal: Prasyarat CS101 belum terpenuhi untuk CS201.'')"
    by (simp add: PrerequisiteRule_validate_def demo_reg_def required_of_def prereq_message_def)
  have h8: "(\<forall>r \<in> set (rules ?self). source_rule r) \<and> rules ?self = [?sks, ?pre] @ ?jad # []
      \<and> (\<forall>p \<in> set [?sks, ?pre]. \<exists>m. fst (validate p demo_reg) = Inr (True, m))
      \<and> fst (validate ?jad demo_reg)
        = Inr (False, ''Gagal: Jadwal bentrok untuk CS201 pada slot Mon-09.'')"
    using v1 v2 v3 by simp
  have h8b: "(\<forall>r \<in> set (rules ?two). source_rule r) \<and> rules ?two = [?sks] @ ?pre # []
      \<and> (\<forall>p \<in> set [?sks]. \<exists>m. fst (validate p ?nc) = Inr (True, m))
      \<and> fst (validate ?pre ?nc)
        = Inr (False, ''Gagal: Prasyarat CS101 belum terpenuhi untuk CS201.'')"
    using v4 v5 by simp
  have h9: "rules ?spies = [spy ''P'' (True, '''') 0] @ spy ''F'' (False, ''F refuses'') 0 # [SksLimitRule 24]
      \<and> validate_in_order [spy ''P'' (True, '''') 0] demo_reg
          = ([Inr (True, '''')], [spy ''P'' (True, '''') 1], demo_reg)
      \<and> (\<forall>res \<in> set [Inr (True, '''')]. passed res)
      \<and> validate (spy ''F'' (False, ''F refuses'') 0) demo_reg
          = (Inr (False, ''F refuses''), spy ''F'' (False, ''F refuses'') 1, demo_reg)"
    by simp
  have h10: "\<forall>r \<in> set (rules ?two). source_rule r" by simp
  have a10: "\<forall>r \<in> set (rules ?two). \<exists>m. fst (validate r demo_reg) = Inr (True, m)"
    using v1 v2 by simp
  note T = source_rules_never_raise
  note c2 = T[THEN conjunct2, THEN conjunct1, THEN mp, OF h2]
  note c3 = T[where 'a = unit, THEN conjunct2, THEN conjunct2,
      THEN conjunct1, THEN mp, OF h3]
  note c4 = T[where 'a = unit, THEN conjunct2, THEN conjunct2,
      THEN conjunct2, THEN conjunct1, THEN mp, OF h4]
  note c5 = T[where 'a = unit, THEN conjunct2, THEN conjunct2,
      THEN conjunct2, THEN conjunct2, THEN conjunct1, THEN mp, OF h5]
  note c6 = T[where 'a = unit, THEN conjunct2, THEN conjunct2,
      THEN conjunct2, THEN conjunct2, THEN conjunct2, THEN conjunct1, THEN mp, OF h6]
  note c8 = T[THEN conjunct2, THEN conjunct2, THEN conjunct2, THEN conjunct2,
      THEN conjunct2, THEN conjunct2, THEN conjunct2, THEN conjunct1, THEN mp, OF h8]
  note c8b = T[THEN conjunct2, THEN conjunct2, THEN conjunct2, THEN conjunct2,
      THEN conjunct2, THEN conjunct2, THEN conjunct2, THEN conjunct1, THEN mp, OF h8b]
  note c9 = T[THEN conjunct2, THEN conjunct2, THEN conjunct2, THEN conjunct2,
      THEN conjunct2, THEN conjunct2, THEN conjunct2, THEN conjunct2, THEN conjunct1,
      THEN mp, OF h9]
  note c10 = T[THEN conjunct2, THEN conjunct2, THEN conjunct2, THEN conjunct2,
      THEN conjunct2, THEN conjunct2, THEN conjunct2, THEN conjunct2, THEN conjunct2,
      THEN mp, OF h10, THEN iffD2, OF a10]
  from c2 c3 c4 c5 c6 c8 c8b c9 c10 show ?thesis by (intro conjI)
qed

subsection \<open>The request and the rules after a call\<close>

text \<open>
  The method on the store: what it leaves in the store, and that it computes what the
  method on values computes.
\<close>

lemma jadwal_loop_store_frame:
  "jadwal_loop_store csm occ courses i h = (res, h') \<Longrightarrow>
     length h' = length h \<and> (\<forall>r. r \<noteq> occ \<longrightarrow> h' ! r = h ! r)"
proof (induction csm occ courses i h arbitrary: res h' rule: jadwal_loop_store.induct)
  case (1 csm occ courses i h)
  note step = "1.prems"[unfolded jadwal_loop_store.simps[of csm occ courses i h]]
  show ?case
  proof (cases "deref h courses")
    case None
    with step show ?thesis by simp
  next
    case c: (Some ob)
    show ?thesis
    proof (cases ob)
      case (PySet s)
      with c step show ?thesis by simp
    next
      case l: (PyList cs)
      show ?thesis
      proof (cases "i < length cs")
        case False
        with c l step show ?thesis by simp
      next
        case True
        show ?thesis
        proof (cases "map_of csm (cs ! i)")
          case None
          with c l True step have "jadwal_loop_store csm occ courses (Suc i) h = (res, h')"
            by simp
          from "1.IH"(1)[OF c l True None this] show ?thesis .
        next
          case m: (Some slot)
          show ?thesis
          proof (cases "deref h occ")
            case None
            with c l True m step show ?thesis by simp
          next
            case o: (Some ob2)
            show ?thesis
            proof (cases ob2)
              case (PyList xs)
              with c l True m o step show ?thesis by simp
            next
              case t: (PySet s)
              show ?thesis
              proof (cases "slot \<in> s")
                case True
                with c l \<open>i < length cs\<close> m o t step show ?thesis by simp
              next
                case False
                with c l True m o t step
                have "jadwal_loop_store csm occ courses (Suc i) (h[occ := PySet (insert slot s)])
                    = (res, h')" by simp
                from "1.IH"(2)[OF c l True m o t False this] show ?thesis by simp
              qed
            qed
          qed
        qed
      qed
    qed
  qed
qed

lemma JadwalBentrokRule_validate_store_frame:
  "JadwalBentrokRule_validate_store es_ref csm sched_ref req_ref h = (res, h') \<Longrightarrow>
     length h \<le> length h' \<and> (\<forall>r < length h. h' ! r = h ! r)"
  by (auto simp: JadwalBentrokRule_validate_store_def alloc_def nth_append
      split: option.splits pyobj.splits dest!: jadwal_loop_store_frame)

lemma jadwal_loop_store_refines:
  "deref h courses = Some (PyList cs) \<Longrightarrow> deref h occ = Some (PySet s) \<Longrightarrow>
   fst (jadwal_loop_store csm occ courses i h) = Inr (jadwal_loop csm s (drop i cs))"
proof (induction csm occ courses i h arbitrary: s rule: jadwal_loop_store.induct)
  case (1 csm occ courses i h)
  have ne: "occ \<noteq> courses" using "1.prems" by auto
  show ?case
  proof (cases "i < length cs")
    case False
    with "1.prems" show ?thesis by (subst jadwal_loop_store.simps) simp
  next
    case True
    then have d: "drop i cs = cs ! i # drop (Suc i) cs" by (simp add: Cons_nth_drop_Suc)
    show ?thesis
    proof (cases "map_of csm (cs ! i)")
      case None
      with True d "1.prems" "1.IH"(1)[OF "1.prems"(1) refl True None "1.prems"] show ?thesis
        by (subst jadwal_loop_store.simps) simp
    next
      case (Some slot)
      show ?thesis
      proof (cases "slot \<in> s")
        case in_s: True
        with True d Some "1.prems" show ?thesis by (subst jadwal_loop_store.simps) simp
      next
        case nin: False
        let ?h = "h[occ := PySet (insert slot s)]"
        from "1.prems" ne have c: "deref ?h courses = Some (PyList cs)"
          by (auto simp: deref_def split: if_splits)
        from "1.prems" have o: "deref ?h occ = Some (PySet (insert slot s))"
          by (auto simp: deref_def split: if_splits)
        from "1.IH"(2)[OF "1.prems"(1) refl True Some "1.prems"(2) refl nin c o]
        show ?thesis using True d Some nin "1.prems"
          by (subst jadwal_loop_store.simps) simp
      qed
    qed
  qed
qed

lemma JadwalBentrokRule_validate_store_refines:
  "deref h es_ref = Some (PyList es) \<Longrightarrow> deref h sched_ref = Some (PyList (schedule reg)) \<Longrightarrow>
   deref h req_ref = Some (PyList (requested_courses reg)) \<Longrightarrow>
   fst (JadwalBentrokRule_validate_store es_ref csm sched_ref req_ref h)
     = Inr (JadwalBentrokRule_validate es csm reg)"
proof -
  assume a: "deref h es_ref = Some (PyList es)" "deref h sched_ref = Some (PyList (schedule reg))"
    "deref h req_ref = Some (PyList (requested_courses reg))"
  let ?h2 = "(h @ [PyList (es @ schedule reg)]) @ [PySet (set (es @ schedule reg))]"
  from a have c: "deref ?h2 req_ref = Some (PyList (requested_courses reg))"
    by (auto simp: deref_def nth_append split: if_splits)
  have o: "deref ?h2 (Suc (length h)) = Some (PySet (set (es @ schedule reg)))"
    by (simp add: deref_def nth_append)
  from jadwal_loop_store_refines[OF c o, of csm 0] a show ?thesis
    by (simp add: JadwalBentrokRule_validate_store_def alloc_def JadwalBentrokRule_validate_def)
qed

text \<open>
  C7. After a call of \<^verbatim>\<open>validate\<close> on a rule of one of the three classes of the
  source, the request is as it was before the call: the whole record, so each of
  \<^verbatim>\<open>student_id\<close>, \<^verbatim>\<open>name\<close>, the two credit-hour counts, \<^verbatim>\<open>completed_courses\<close>,
  \<^verbatim>\<open>requested_courses\<close> and \<^verbatim>\<open>schedule\<close>. For the one method that changes an
  object, \<^verbatim>\<open>JadwalBentrokRule.validate\<close>, this holds of the objects themselves: on a
  store, every object that existed before the call is the same after it (the list objects
  of the request and of the rule among them), whatever the addresses handed in; and on
  lists of strings the method on the store returns what the method on values returns.
\<close>

theorem validate_leaves_request:
  "(source_rule rule \<and> validate rule reg = (res, rule', reg')
      \<longrightarrow> reg' = reg \<and> student_id reg' = student_id reg \<and> name reg' = name reg
        \<and> current_sks reg' = current_sks reg \<and> requested_sks reg' = requested_sks reg
        \<and> completed_courses reg' = completed_courses reg
        \<and> requested_courses reg' = requested_courses reg \<and> schedule reg' = schedule reg)
   \<and> (JadwalBentrokRule_validate_store es_ref csm sched_ref req_ref h = (res_s, h')
      \<longrightarrow> length h \<le> length h' \<and> (\<forall>r < length h. h' ! r = h ! r))
   \<and> (deref h es_ref = Some (PyList es) \<and> deref h sched_ref = Some (PyList (schedule reg))
        \<and> deref h req_ref = Some (PyList (requested_courses reg))
      \<longrightarrow> fst (JadwalBentrokRule_validate_store es_ref csm sched_ref req_ref h)
          = fst (validate (JadwalBentrokRule es csm) reg))"
proof -
  have p1: "source_rule rule \<and> validate rule reg = (res, rule', reg')
      \<longrightarrow> reg' = reg \<and> student_id reg' = student_id reg \<and> name reg' = name reg
        \<and> current_sks reg' = current_sks reg \<and> requested_sks reg' = requested_sks reg
        \<and> completed_courses reg' = completed_courses reg
        \<and> requested_courses reg' = requested_courses reg \<and> schedule reg' = schedule reg"
  proof
    assume "source_rule rule \<and> validate rule reg = (res, rule', reg')"
    then have "reg' = reg" using validate_source_rule[of rule reg] by auto
    then show "reg' = reg \<and> student_id reg' = student_id reg \<and> name reg' = name reg
        \<and> current_sks reg' = current_sks reg \<and> requested_sks reg' = requested_sks reg
        \<and> completed_courses reg' = completed_courses reg
        \<and> requested_courses reg' = requested_courses reg \<and> schedule reg' = schedule reg"
      by simp
  qed
  have p2: "JadwalBentrokRule_validate_store es_ref csm sched_ref req_ref h = (res_s, h')
      \<longrightarrow> length h \<le> length h' \<and> (\<forall>r < length h. h' ! r = h ! r)"
    using JadwalBentrokRule_validate_store_frame[of es_ref csm sched_ref req_ref h res_s h']
    by blast
  have p3: "deref h es_ref = Some (PyList es) \<and> deref h sched_ref = Some (PyList (schedule reg))
        \<and> deref h req_ref = Some (PyList (requested_courses reg))
      \<longrightarrow> fst (JadwalBentrokRule_validate_store es_ref csm sched_ref req_ref h)
          = fst (validate (JadwalBentrokRule es csm) reg)"
    by (simp add: JadwalBentrokRule_validate_store_refines)
  from p1 p2 p3 show ?thesis by (intro conjI)
qed

theorem validate_leaves_request_witness:
  "snd (snd (validate (SksLimitRule 24 :: unit IValidationRule) (demo_reg\<lparr>current_sks := 20\<rparr>)))
     = demo_reg\<lparr>current_sks := 20\<rparr>
   \<and> snd (snd (validate (PrerequisiteRule [(''CS201'', [''CS101''])] :: unit IValidationRule)
        (demo_reg\<lparr>completed_courses := []\<rparr>))) = demo_reg\<lparr>completed_courses := []\<rparr>
   \<and> schedule (snd (snd (validate
        (JadwalBentrokRule [''Mon-09''] default_course_slot_map :: unit IValidationRule) demo_reg)))
     = [''Wed-10'']
   \<and> JadwalBentrokRule_validate_store 0 default_course_slot_map 1 2
        [PyList [''Mon-09''], PyList [''Wed-10''], PyList [''XX999'', ''CS102'']]
     = (Inr (True, ''''),
        [PyList [''Mon-09''], PyList [''Wed-10''], PyList [''XX999'', ''CS102''],
         PyList [''Mon-09'', ''Wed-10''], PySet {''Tue-11'', ''Mon-09'', ''Wed-10''}])
   \<and> snd (JadwalBentrokRule_validate_store 0 default_course_slot_map 1 2
        [PyList [''Mon-09''], PyList [''Wed-10''], PyList [''CS201'', ''MA101'']]) ! 1
     = PyList [''Wed-10'']
   \<and> fst (JadwalBentrokRule_validate_store 0 default_course_slot_map 1 2
        [PyList [''Mon-09''], PyList [''Wed-10''], PyList [''CS201'', ''MA101'']])
     = Inr (False, ''Gagal: Jadwal bentrok untuk CS201 pada slot Mon-09.'')"
proof -
  let ?sks = "SksLimitRule 24 :: unit IValidationRule"
  let ?pre = "PrerequisiteRule [(''CS201'', [''CS101''])] :: unit IValidationRule"
  let ?jad = "JadwalBentrokRule [''Mon-09''] default_course_slot_map :: unit IValidationRule"
  let ?h3 = "[PyList [''Mon-09''], PyList [''Wed-10''], PyList [''XX999'', ''CS102'']]"
  let ?h5 = "[PyList [''Mon-09''], PyList [''Wed-10''], PyList [''CS201'', ''MA101'']]"
  have e: "\<And>(rule :: unit IValidationRule) reg. source_rule rule \<Longrightarrow>
      source_rule rule \<and> validate rule reg = (fst (validate rule reg), fst (snd (validate rule reg)),
        snd (snd (validate rule reg)))" by simp
  have c1: "snd (snd (validate ?sks (demo_reg\<lparr>current_sks := 20\<rparr>))) = demo_reg\<lparr>current_sks := 20\<rparr>"
    using validate_leaves_request[THEN conjunct1, THEN mp, OF e, of ?sks] by simp
  have c2: "snd (snd (validate ?pre (demo_reg\<lparr>completed_courses := []\<rparr>)))
      = demo_reg\<lparr>completed_courses := []\<rparr>"
    using validate_leaves_request[THEN conjunct1, THEN mp, OF e, of ?pre] by simp
  have "schedule (snd (snd (validate ?jad demo_reg))) = schedule demo_reg"
    using validate_leaves_request[THEN conjunct1, THEN mp, OF e, of ?jad] by simp
  then have c3: "schedule (snd (snd (validate ?jad demo_reg))) = [''Wed-10'']"
    by (simp add: demo_reg_def)
  have c4: "JadwalBentrokRule_validate_store 0 default_course_slot_map 1 2 ?h3
     = (Inr (True, ''''), ?h3 @ [PyList [''Mon-09'', ''Wed-10''],
          PySet {''Tue-11'', ''Mon-09'', ''Wed-10''}])"
    by (simp add: JadwalBentrokRule_validate_store_def deref_def alloc_def
        jadwal_loop_store.simps default_course_slot_map_def)
  have p: "JadwalBentrokRule_validate_store 0 default_course_slot_map 1 2 ?h5
      = (fst (JadwalBentrokRule_validate_store 0 default_course_slot_map 1 2 ?h5),
         snd (JadwalBentrokRule_validate_store 0 default_course_slot_map 1 2 ?h5))" by simp
  have "\<forall>r < length ?h5.
      snd (JadwalBentrokRule_validate_store 0 default_course_slot_map 1 2 ?h5) ! r = ?h5 ! r"
    using validate_leaves_request[where 'a = unit, THEN conjunct2, THEN conjunct1, THEN mp, OF p]
    by blast
  then have c5: "snd (JadwalBentrokRule_validate_store 0 default_course_slot_map 1 2 ?h5) ! 1
      = PyList [''Wed-10'']" by simp
  have d: "deref ?h5 0 = Some (PyList [''Mon-09''])
      \<and> deref ?h5 1 = Some (PyList (schedule demo_reg))
      \<and> deref ?h5 2 = Some (PyList (requested_courses demo_reg))"
    by (simp add: deref_def demo_reg_def)
  have "fst (JadwalBentrokRule_validate_store 0 default_course_slot_map 1 2 ?h5)
      = fst (validate ?jad demo_reg)"
    using validate_leaves_request[where 'a = unit, THEN conjunct2, THEN conjunct2, THEN mp, OF d]
    by simp
  then have c6: "fst (JadwalBentrokRule_validate_store 0 default_course_slot_map 1 2 ?h5)
      = Inr (False, ''Gagal: Jadwal bentrok untuk CS201 pada slot Mon-09.'')"
    by (simp add: JadwalBentrokRule_validate_def demo_reg_def default_course_slot_map_def
        jadwal_message_def)
  from c1 c2 c3 c4 c5 c6 show ?thesis by simp
qed






subsection \<open>Special cases and the demonstration\<close>

text \<open>
  C10. A service constructed with the empty rule list returns success with the message
  \<^verbatim>\<open>Registrasi berhasil.\<close> for every request, prints nothing and changes nothing.
\<close>

theorem register_no_rules:
  "register (RegistrationService_init []) reg
     = (Inr (True, ''Registrasi berhasil.''), RegistrationService_init [], reg, [])"
  by (simp add: register_def RegistrationService_init_def)

theorem register_no_rules_witness:
  "fst (register (RegistrationService_init ([] :: unit IValidationRule list))
      (demo_reg\<lparr>current_sks := 40, completed_courses := [], schedule := [''Mon-09'']\<rparr>))
     = Inr (True, ''Registrasi berhasil.'')
   \<and> fst (validate (SksLimitRule 24 :: unit IValidationRule)
      (demo_reg\<lparr>current_sks := 40, completed_courses := [], schedule := [''Mon-09'']\<rparr>))
     = Inr (False, ''Gagal: Melebihi batas SKS (max 24).'')
   \<and> fst (validate (PrerequisiteRule [(''CS201'', [''CS101''])] :: unit IValidationRule)
      (demo_reg\<lparr>current_sks := 40, completed_courses := [], schedule := [''Mon-09'']\<rparr>))
     = Inr (False, ''Gagal: Prasyarat CS101 belum terpenuhi untuk CS201.'')
   \<and> fst (validate (JadwalBentrokRule [] default_course_slot_map :: unit IValidationRule)
      (demo_reg\<lparr>current_sks := 40, completed_courses := [], schedule := [''Mon-09'']\<rparr>))
     = Inr (False, ''Gagal: Jadwal bentrok untuk CS201 pada slot Mon-09.'')"
proof -
  let ?bad = "demo_reg\<lparr>current_sks := 40, completed_courses := [], schedule := [''Mon-09'']\<rparr>"
  have c0: "fst (register (RegistrationService_init ([] :: unit IValidationRule list)) ?bad)
     = Inr (True, ''Registrasi berhasil.'')"
    using register_no_rules[of ?bad, where 'a = unit] by simp
  have c1: "fst (validate (SksLimitRule 24 :: unit IValidationRule) ?bad)
     = Inr (False, ''Gagal: Melebihi batas SKS (max 24).'')"
    by (simp add: SksLimitRule_validate_def demo_reg_def sks_message_def str_int_def
        str_nat.simps digit_char_def)
  have c2: "fst (validate (PrerequisiteRule [(''CS201'', [''CS101''])] :: unit IValidationRule) ?bad)
     = Inr (False, ''Gagal: Prasyarat CS101 belum terpenuhi untuk CS201.'')"
    by (simp add: PrerequisiteRule_validate_def demo_reg_def required_of_def prereq_message_def)
  have c3: "fst (validate (JadwalBentrokRule [] default_course_slot_map :: unit IValidationRule) ?bad)
     = Inr (False, ''Gagal: Jadwal bentrok untuk CS201 pada slot Mon-09.'')"
    by (simp add: JadwalBentrokRule_validate_def demo_reg_def default_course_slot_map_def
        jadwal_message_def)
  from c0 c1 c2 c3 show ?thesis by blast
qed

text \<open>
  C8. Take the credit-limit rule constructed with the cap 24, the prerequisite rule
  constructed with the map of CS201 to [CS101], and a request with 18 current and 6
  requested credit hours, CS101 among the completed courses and the requested courses
  CS201, MA101. \<^verbatim>\<open>register\<close> with those two rules returns success. With the
  schedule-conflict rule constructed with the existing schedule [Mon-09] and no map (so
  with the default map, in which CS201 has the slot Mon-09) appended, it returns the
  failure that reports the conflict of CS201 at the slot Mon-09.
\<close>

theorem demo_scenarios:
  "SksLimitRule_init (Some 24) = Inr sks \<Longrightarrow>
   PrerequisiteRule_init [(''CS201'', [''CS101''])] = Inr pre \<Longrightarrow>
   JadwalBentrokRule_init (Some [''Mon-09'']) None = Inr jad \<Longrightarrow>
   current_sks reg = 18 \<Longrightarrow> requested_sks reg = 6 \<Longrightarrow>
   ''CS101'' \<in> set (completed_courses reg) \<Longrightarrow>
   requested_courses reg = [''CS201'', ''MA101''] \<Longrightarrow>
     fst (register (RegistrationService_init [sks, pre]) reg) = Inr (True, ''Registrasi berhasil.'')
     \<and> fst (register (RegistrationService_init [sks, pre, jad]) reg)
       = Inr (False, ''Gagal: Jadwal bentrok untuk CS201 pada slot Mon-09.'')
     \<and> map_of (course_slot_map jad) ''CS201'' = Some ''Mon-09''"
proof -
  assume i1: "SksLimitRule_init (Some 24) = Inr sks"
    and i2: "PrerequisiteRule_init [(''CS201'', [''CS101''])] = Inr pre"
    and i3: "JadwalBentrokRule_init (Some [''Mon-09'']) None = Inr jad"
    and r: "current_sks reg = 18" "requested_sks reg = 6"
      "''CS101'' \<in> set (completed_courses reg)" "requested_courses reg = [''CS201'', ''MA101'']"
  from i1 have sks: "sks = SksLimitRule 24" by (simp add: SksLimitRule_init_def)
  from i2 have pre: "pre = PrerequisiteRule [(''CS201'', [''CS101''])]"
    by (simp add: PrerequisiteRule_init_def)
  from i3 have jad: "jad = JadwalBentrokRule [''Mon-09''] default_course_slot_map"
    by (simp add: JadwalBentrokRule_init_def)
  have v1: "SksLimitRule_validate 24 reg = (True, '''')"
    using r by (simp add: SksLimitRule_validate_def)
  have v2: "PrerequisiteRule_validate [(''CS201'', [''CS101''])] reg = (True, '''')"
    using r by (simp add: PrerequisiteRule_validate_def required_of_def)
  have v3: "JadwalBentrokRule_validate [''Mon-09''] default_course_slot_map reg
      = (False, ''Gagal: Jadwal bentrok untuk CS201 pada slot Mon-09.'')"
    using r by (simp add: JadwalBentrokRule_validate_def default_course_slot_map_def
        jadwal_message_def)
  show ?thesis
    using v1 v2 v3
    by (simp add: sks pre jad register_def RegistrationService_init_def)
       (simp add: default_course_slot_map_def)
qed

theorem demo_scenarios_witness:
  "fst (register (RegistrationService_init [SksLimitRule 24 :: unit IValidationRule,
        PrerequisiteRule [(''CS201'', [''CS101''])]]) demo_reg)
     = Inr (True, ''Registrasi berhasil.'')
   \<and> fst (register (RegistrationService_init [SksLimitRule 24 :: unit IValidationRule,
        PrerequisiteRule [(''CS201'', [''CS101''])],
        JadwalBentrokRule [''Mon-09''] default_course_slot_map]) demo_reg)
     = Inr (False, ''Gagal: Jadwal bentrok untuk CS201 pada slot Mon-09.'')"
proof -
  have i1: "SksLimitRule_init (Some 24) = Inr (SksLimitRule 24 :: unit IValidationRule)"
    by (simp add: SksLimitRule_init_def)
  have i2: "PrerequisiteRule_init [(''CS201'', [''CS101''])]
      = Inr (PrerequisiteRule [(''CS201'', [''CS101''])] :: unit IValidationRule)"
    by (simp add: PrerequisiteRule_init_def)
  have i3: "JadwalBentrokRule_init (Some [''Mon-09'']) None
      = Inr (JadwalBentrokRule [''Mon-09''] default_course_slot_map :: unit IValidationRule)"
    by (simp add: JadwalBentrokRule_init_def)
  have r: "current_sks demo_reg = 18" "requested_sks demo_reg = 6"
      "''CS101'' \<in> set (completed_courses demo_reg)"
      "requested_courses demo_reg = [''CS201'', ''MA101'']"
    by (simp_all add: demo_reg_def)
  from demo_scenarios[OF i1 i2 i3 r] show ?thesis by blast
qed

subsection \<open>Construction\<close>

text \<open>
  C5 as the code has it. No constructor checks its configuration. The constructor of the
  credit-limit rule returns a rule for every integer cap, negative ones included, and the
  constructors of the other two rules return a rule for every argument; none raises. A
  negative cap shows only when \<^verbatim>\<open>validate\<close> is called: every request whose two
  credit-hour counts are not negative gets the credit-limit failure, with that cap in the
  message.
\<close>

theorem constructors_accept_any_configuration:
  "SksLimitRule_init (Some cap) = Inr (SksLimitRule cap :: 'a IValidationRule)
   \<and> SksLimitRule_init None = Inr (SksLimitRule 24 :: 'a IValidationRule)
   \<and> PrerequisiteRule_init pm = Inr (PrerequisiteRule pm :: 'a IValidationRule)
   \<and> (\<exists>es' csm'. JadwalBentrokRule_init es csm = Inr (JadwalBentrokRule es' csm' :: 'a IValidationRule))
   \<and> (cap < 0 \<and> 0 \<le> current_sks reg \<and> 0 \<le> requested_sks reg
        \<longrightarrow> fst (validate (SksLimitRule cap :: 'a IValidationRule) reg)
            = Inr (False, ''Gagal: Melebihi batas SKS (max '' @ str_int cap @ '').''))"
  by (simp add: SksLimitRule_init_def PrerequisiteRule_init_def JadwalBentrokRule_init_def
      SksLimitRule_validate_def sks_message_def)

theorem constructors_accept_any_configuration_witness:
  "SksLimitRule_init (Some (- 5)) = Inr (SksLimitRule (- 5) :: unit IValidationRule)
   \<and> fst (validate (SksLimitRule (- 5) :: unit IValidationRule)
        (demo_reg\<lparr>current_sks := 0, requested_sks := 3\<rparr>))
     = Inr (False, ''Gagal: Melebihi batas SKS (max -5).'')"
proof -
  let ?reg = "demo_reg\<lparr>current_sks := 0, requested_sks := 3\<rparr>"
  have h: "(- 5 :: int) < 0 \<and> 0 \<le> current_sks ?reg \<and> 0 \<le> requested_sks ?reg"
    by simp
  have m: "str_int (- 5) = ''-5''"
    by (simp add: str_int_def str_nat.simps digit_char_def)
  note T = constructors_accept_any_configuration[where 'a = unit and cap = "- 5" and reg = ?reg]
  from T[THEN conjunct1] T[THEN conjunct2, THEN conjunct2, THEN conjunct2, THEN conjunct2,
      THEN mp, OF h] m
  show ?thesis by simp
qed

text \<open>
  The claim C5 as it was stated fails: the constructor called with the cap \<open>-1\<close> returns a
  rule, and the cap then makes a request with no credit hours at all fail validation.
\<close>

theorem negative_cap_accepted_counterexample:
  "SksLimitRule_init (Some (- 1)) = (Inr (SksLimitRule (- 1)) :: exn + unit IValidationRule)
   \<and> fst (validate (SksLimitRule (- 1) :: unit IValidationRule)
        (demo_reg\<lparr>current_sks := 0, requested_sks := 0\<rparr>))
     = Inr (False, ''Gagal: Melebihi batas SKS (max -1).'')"
  by (simp add: SksLimitRule_init_def SksLimitRule_validate_def sks_message_def str_int_def
      str_nat.simps digit_char_def)

end
